theory Spec2Isabelle
  imports Complex_Main "HOL-Library.Multiset"
begin

section \<open>JavaScript values carried by a request\<close>

text \<open>
  The controller \<^verbatim>\<open>src/controllers/toolController.ts\<close> reads its inputs from
  \<^verbatim>\<open>req.body\<close>, which the body parser fills from JSON. A number of the body is an
  IEEE double; \<^verbatim>\<open>String(x)\<close> prints the shortest decimal that reads back as the same
  double, so a finite double is identified with that decimal: \<open>Dec neg s e\<close> stands for
  \<open>\<plusminus> s \<times> 10\<^sup>e\<close>. \<open>Inf neg\<close> is \<open>\<plusminus>Infinity\<close> (what \<^verbatim>\<open>JSON.parse\<close> makes of
  \<^verbatim>\<open>1e999\<close>); JSON has no literal that yields NaN. Strings are sequences of code
  units, here the code units below 256.
\<close>

datatype json_number = Dec bool nat int | Inf bool

datatype jsval =
    JUndefined
  | JNull
  | JBool bool
  | JNum json_number
  | JStr string
  | JArr "jsval list"
  | JObj "(string \<times> jsval) list"

subsection \<open>\<^verbatim>\<open>Number::toString\<close>\<close>

definition digit_char :: "nat \<Rightarrow> char" where
  "digit_char d = char_of (48 + d)"

fun digits :: "nat \<Rightarrow> string" where
  "digits n = (if n < 10 then [digit_char n] else digits (n div 10) @ [digit_char (n mod 10)])"

declare digits.simps [simp del]

text \<open>The decimal \<open>s \<times> 10\<^sup>e\<close> with the fewest digits: trailing zeros of \<open>s\<close> move
  into the exponent.\<close>

fun shortest :: "nat \<Rightarrow> int \<Rightarrow> nat \<times> int" where
  "shortest s e = (if s \<noteq> 0 \<and> s mod 10 = 0 then shortest (s div 10) (e + 1) else (s, e))"

declare shortest.simps [simp del]

text \<open>ECMAScript \<^verbatim>\<open>Number::toString(x)\<close>, radix 10. With \<open>k\<close> the number of digits of
  \<open>s\<close> and \<open>n = e + k\<close> the position of the decimal point: plain digits when
  \<open>k \<le> n \<le> 21\<close>, a decimal point inside when \<open>0 < n \<le> 21\<close>, leading \<^verbatim>\<open>0.\<close> when
  \<open>-6 < n \<le> 0\<close>, and exponent notation otherwise.\<close>

definition Number_toString :: "json_number \<Rightarrow> string" where
  "Number_toString x =
     (case x of
        Inf neg \<Rightarrow> (if neg then ''-Infinity'' else ''Infinity'')
      | Dec neg s0 e0 \<Rightarrow>
          (if s0 = 0 then ''0''
           else
             let (s, e) = shortest s0 e0;
                 ds = digits s;
                 k = int (length ds);
                 n = e + k;
                 body =
                   (if k \<le> n \<and> n \<le> 21 then ds @ replicate (nat (n - k)) (CHR ''0'')
                    else if 0 < n \<and> n \<le> 21 then take (nat n) ds @ ''.'' @ drop (nat n) ds
                    else if - 6 < n \<and> n \<le> 0 then ''0.'' @ replicate (nat (- n)) (CHR ''0'') @ ds
                    else
                      (let ex = [if n - 1 < 0 then CHR ''-'' else CHR ''+''] @ digits (nat \<bar>n - 1\<bar>)
                       in if k = 1 then ds @ ''e'' @ ex
                          else take 1 ds @ ''.'' @ drop 1 ds @ ''e'' @ ex))
             in (if neg then ''-'' else '''') @ body))"


subsection \<open>\<^verbatim>\<open>String(v)\<close>, \<^verbatim>\<open>typeof\<close> and truthiness\<close>

text \<open>What a \<^verbatim>\<open>throw\<close> carries: an \<^verbatim>\<open>Error\<close> with its message, or another value.\<close>

datatype js_error = Error_with string | Thrown_value

text \<open>\<^verbatim>\<open>error instanceof Error ? error.message : 'Unknown error occurred'\<close>\<close>

fun error_text :: "js_error \<Rightarrow> string" where
  "error_text (Error_with msg) = msg"
| "error_text Thrown_value = ''Unknown error occurred''"

fun join_comma :: "string list \<Rightarrow> string" where
  "join_comma [] = ''''"
| "join_comma [s] = s"
| "join_comma (s # t # ss) = s @ '','' @ join_comma (t # ss)"

text \<open>The strings of a list of conversions, or the first error among them.\<close>

fun collect :: "(js_error + string) list \<Rightarrow> js_error + string list" where
  "collect [] = Inr []"
| "collect (Inl err # rs) = Inl err"
| "collect (Inr s # rs) = (case collect rs of Inl err \<Rightarrow> Inl err | Inr ss \<Rightarrow> Inr (s # ss))"

text \<open>
  \<^verbatim>\<open>String(v)\<close>. An array prints its elements joined by commas, with \<^verbatim>\<open>null\<close> and
  \<^verbatim>\<open>undefined\<close> elements printed as the empty string. An object of the body has no
  methods of its own: it prints as \<^verbatim>\<open>[object Object]\<close> by the inherited \<^verbatim>\<open>toString\<close>,
  unless it has an own key \<^verbatim>\<open>toString\<close>. That key holds a JSON value, which cannot be
  called, and the inherited \<^verbatim>\<open>valueOf\<close> returns the object itself, so the conversion
  throws a \<^verbatim>\<open>TypeError\<close> (with the message of the V8 engine). The same happens when the
  object is an element of an array.
\<close>

fun String_of :: "jsval \<Rightarrow> js_error + string" where
  "String_of JUndefined = Inr ''undefined''"
| "String_of JNull = Inr ''null''"
| "String_of (JBool b) = Inr (if b then ''true'' else ''false'')"
| "String_of (JNum x) = Inr (Number_toString x)"
| "String_of (JStr s) = Inr s"
| "String_of (JArr vs) =
     (case collect (map (\<lambda>v. if v = JUndefined \<or> v = JNull then Inr [] else String_of v) vs) of
        Inl err \<Rightarrow> Inl err
      | Inr ss \<Rightarrow> Inr (join_comma ss))"
| "String_of (JObj fs) =
     (if ''toString'' \<in> fst ` set fs
      then Inl (Error_with ''Cannot convert object to primitive value'')
      else Inr ''[object Object]'')"

text \<open>The string that a value of type string is.\<close>

fun string_value :: "jsval \<Rightarrow> string" where
  "string_value (JStr s) = s"
| "string_value v = []"

fun is_number :: "jsval \<Rightarrow> bool" where
  "is_number (JNum x) = True"
| "is_number v = False"

fun is_string :: "jsval \<Rightarrow> bool" where
  "is_string (JStr s) = True"
| "is_string v = False"

text \<open>\<^verbatim>\<open>!v\<close> holds for \<^verbatim>\<open>undefined\<close>, \<^verbatim>\<open>null\<close>, \<^verbatim>\<open>false\<close>, \<^verbatim>\<open>0\<close> and the empty string.\<close>

fun truthy :: "jsval \<Rightarrow> bool" where
  "truthy JUndefined = False"
| "truthy JNull = False"
| "truthy (JBool b) = b"
| "truthy (JNum (Dec neg s e)) = (s \<noteq> 0)"
| "truthy (JNum (Inf neg)) = True"
| "truthy (JStr s) = (s \<noteq> [])"
| "truthy (JArr vs) = True"
| "truthy (JObj fs) = True"

subsection \<open>\<^verbatim>\<open>parseInt\<close>\<close>

definition is_ws :: "char \<Rightarrow> bool" where
  "is_ws c = (of_char c \<in> {9, 10, 11, 12, 13, 32, 160 :: nat})"

definition digit_val :: "nat \<Rightarrow> char \<Rightarrow> nat option" where
  "digit_val radix c =
     (let n = (of_char c :: nat);
          v = (if 48 \<le> n \<and> n \<le> 57 then Some (n - 48)
               else if 97 \<le> n \<and> n \<le> 122 then Some (n - 87)
               else if 65 \<le> n \<and> n \<le> 90 then Some (n - 55)
               else None)
      in case v of None \<Rightarrow> None | Some d \<Rightarrow> (if d < radix then Some d else None))"

definition radix_value :: "nat \<Rightarrow> string \<Rightarrow> nat" where
  "radix_value radix z =
     foldl (\<lambda>acc c. acc * radix + (case digit_val radix c of None \<Rightarrow> 0 | Some d \<Rightarrow> d)) 0 z"

text \<open>\<^verbatim>\<open>parseInt(str)\<close> with no radix argument: leading white space is skipped, a sign is
  read, a \<^verbatim>\<open>0x\<close> prefix selects radix 16, and the longest prefix of digits is the
  value; \<open>None\<close> is NaN. The result \<open>-0\<close> of \<^verbatim>\<open>parseInt("-0")\<close> is the integer 0.\<close>

definition parseInt :: "string \<Rightarrow> int option" where
  "parseInt str =
     (let s = dropWhile is_ws str;
          neg = (take 1 s = ''-'');
          s1 = (if take 1 s = ''-'' \<or> take 1 s = ''+'' then drop 1 s else s);
          hex = (take 2 s1 = ''0x'' \<or> take 2 s1 = ''0X'');
          s2 = (if hex then drop 2 s1 else s1);
          radix = (if hex then 16 else 10);
          z = takeWhile (\<lambda>c. digit_val radix c \<noteq> None) s2
      in if z = [] then None
         else Some ((if neg then - 1 else 1) * int (radix_value radix z)))"

subsection \<open>String operations on the query\<close>

text \<open>\<^verbatim>\<open>s.split(sep)\<close> for a one-character separator: the pieces between the separators;
  the empty string splits into one empty piece.\<close>

fun split_on :: "char \<Rightarrow> string \<Rightarrow> string list" where
  "split_on sep [] = [[]]"
| "split_on sep (c # cs) =
     (if c = sep then [] # split_on sep cs
      else (case split_on sep cs of [] \<Rightarrow> [[c]] | p # ps \<Rightarrow> (c # p) # ps))"

fun starts_with :: "string \<Rightarrow> string \<Rightarrow> bool" where
  "starts_with s [] = True"
| "starts_with [] (p # ps) = False"
| "starts_with (c # cs) (p # ps) = (c = p \<and> starts_with cs ps)"

text \<open>\<^verbatim>\<open>s.includes(pat)\<close>: \<open>pat\<close> occurs in \<open>s\<close> as a substring.\<close>

fun includes_str :: "string \<Rightarrow> string \<Rightarrow> bool" where
  "includes_str [] pat = starts_with [] pat"
| "includes_str (c # cs) pat = (starts_with (c # cs) pat \<or> includes_str cs pat)"

section \<open>The search operation: limit and threshold\<close>

text \<open>The body of a search request, \<^verbatim>\<open>req.body as ToolSearchRequest\<close>: the object the
  JSON body parser leaves there (the empty object when the request has no body). An absent
  field is \<open>JUndefined\<close>.\<close>

record search_body =
  body_query :: jsval
  body_limit :: jsval
  body_threshold :: jsval

text \<open>The destructuring \<^verbatim>\<open>const { query, limit = 10, threshold = 0.65 } = req.body\<close>
  replaces a field by its default exactly when the field is \<^verbatim>\<open>undefined\<close>.\<close>

definition default_limit :: "jsval \<Rightarrow> jsval" where
  "default_limit v = (if v = JUndefined then JNum (Dec False 10 0) else v)"

definition default_threshold :: "jsval \<Rightarrow> jsval" where
  "default_threshold v = (if v = JUndefined then JNum (Dec False 65 (- 2)) else v)"

text \<open>\<^verbatim>\<open>Math.min(Math.max(parseInt(String(limit)) || 10, 1), 100)\<close>: \<^verbatim>\<open>||\<close> replaces NaN
  and 0 by 10. The expression throws when \<^verbatim>\<open>String(limit)\<close> throws.\<close>

definition limitNum :: "jsval \<Rightarrow> js_error + int" where
  "limitNum limit =
     (case String_of limit of
        Inl err \<Rightarrow> Inl err
      | Inr str \<Rightarrow>
          Inr (min (max (case parseInt str of
                           None \<Rightarrow> 10
                         | Some n \<Rightarrow> (if n = 0 then 10 else n)) 1) 100))"

definition dec_value :: "bool \<Rightarrow> nat \<Rightarrow> int \<Rightarrow> real" where
  "dec_value neg s e =
     (if neg then - 1 else 1) * real s * (if 0 \<le> e then 10 ^ nat e else 1 / 10 ^ nat (- e))"

text \<open>\<^verbatim>\<open>Math.max(0, Math.min(1, threshold))\<close> on a number.\<close>

definition clamp01 :: "json_number \<Rightarrow> real" where
  "clamp01 x =
     (case x of
        Inf neg \<Rightarrow> (if neg then 0 else 1)
      | Dec neg s e \<Rightarrow> max 0 (min 1 (dec_value neg s e)))"

text \<open>Lines 65 to 78: the threshold after the destructuring default. The two adjustments
  run only when \<^verbatim>\<open>typeof threshold !== 'number'\<close>, the second after the first.\<close>

definition thresholdNum :: "jsval \<Rightarrow> string \<Rightarrow> real" where
  "thresholdNum threshold query =
     (let t0 = (case threshold of JNum x \<Rightarrow> clamp01 x | _ \<Rightarrow> 0.65);
          t1 = (if \<not> is_number threshold \<and>
                   (length query < 10 \<or> length (split_on (CHR '' '') query) \<le> 2)
                then 0.5 else t0);
          t2 = (if \<not> is_number threshold \<and>
                   (length query > 30 \<or> includes_str query ''specific'' \<or>
                    includes_str query ''exact'')
                then 0.75 else t1)
      in t2)"

section \<open>Ranking and grouping\<close>

text \<open>
  A similarity is an IEEE double in the program. It is modelled by the real number it
  denotes. Comparison and maximum of doubles are those of the reals, and the sign of the
  rounded difference of two doubles is the sign of their difference, so the comparators
  of the two sorts are taken exactly. Addition and division round their result to the
  nearest double (\<open>fl\<close> below); this matters for \<^verbatim>\<open>avgSimilarity\<close>. The values that are
  not real numbers are kept: \<^verbatim>\<open>Math.max()\<close> of no arguments is \<^verbatim>\<open>-Infinity\<close> and
  \<^verbatim>\<open>0 / 0\<close> is NaN. The two zeros of IEEE arithmetic are not told apart.
\<close>

datatype number = Num real | PosInfinity | NegInfinity | NaN

fun num_sub :: "number \<Rightarrow> number \<Rightarrow> number" where
  "num_sub (Num a) (Num b) = Num (a - b)"
| "num_sub NaN y = NaN"
| "num_sub x NaN = NaN"
| "num_sub PosInfinity PosInfinity = NaN"
| "num_sub NegInfinity NegInfinity = NaN"
| "num_sub PosInfinity y = PosInfinity"
| "num_sub NegInfinity y = NegInfinity"
| "num_sub (Num a) PosInfinity = NegInfinity"
| "num_sub (Num a) NegInfinity = PosInfinity"

fun positive :: "number \<Rightarrow> bool" where
  "positive (Num r) = (0 < r)"
| "positive PosInfinity = True"
| "positive NegInfinity = False"
| "positive NaN = False"

subsection \<open>Rounding to the nearest double\<close>

text \<open>Rounding to the nearest integer, a tie going to the even one.\<close>

definition round_even :: "real \<Rightarrow> int" where
  "round_even y =
     (let f = \<lfloor>y\<rfloor>; r = y - of_int f
      in if r < 1 / 2 then f else if 1 / 2 < r then f + 1 else if even f then f else f + 1)"

text \<open>
  The exponent of a real: \<open>e\<close> with \<open>2\<^sup>e \<le> \<bar>x\<bar> < 2\<^sup>e\<^sup>+\<^sup>1\<close>, found by halving or
  doubling. The search stops at the ends of the range of a double: the exponent is
  \<open>-1022\<close> for every \<open>\<bar>x\<bar> < 2\<^sup>-\<^sup>1\<^sup>0\<^sup>2\<^sup>2\<close> (the subnormal numbers have the spacing of the
  smallest normal ones) and 1024 from \<open>2\<^sup>1\<^sup>0\<^sup>2\<^sup>4\<close> on.
\<close>

fun binade_up :: "nat \<Rightarrow> real \<Rightarrow> int \<Rightarrow> int" where
  "binade_up 0 x e = e"
| "binade_up (Suc k) x e = (if x < 2 then e else binade_up k (x / 2) (e + 1))"

fun binade_down :: "nat \<Rightarrow> real \<Rightarrow> int \<Rightarrow> int" where
  "binade_down 0 x e = e"
| "binade_down (Suc k) x e = (if 1 \<le> x then e else binade_down k (2 * x) (e - 1))"

definition exponent :: "real \<Rightarrow> int" where
  "exponent x = (if 1 \<le> \<bar>x\<bar> then binade_up 1024 \<bar>x\<bar> 0 else binade_down 1022 \<bar>x\<bar> 0)"

text \<open>The nearest multiple of \<open>2\<^sup>e\<^sup>-\<^sup>5\<^sup>2\<close>, a tie going to the even multiple: a double has
  53 significant bits.\<close>

definition round_double :: "real \<Rightarrow> real" where
  "round_double x =
     (let q = 2 powi (exponent x - 52) in of_int (round_even (x / q)) * q)"

text \<open>The result of an operation whose exact value is \<open>x\<close>: the nearest double, or an
  infinity when that is \<open>2\<^sup>1\<^sup>0\<^sup>2\<^sup>4\<close> or more in size.\<close>

definition fl :: "real \<Rightarrow> number" where
  "fl x =
     (let r = round_double x
      in if 2 ^ 1024 \<le> r then PosInfinity
         else if r \<le> - (2 ^ 1024) then NegInfinity
         else Num r)"

fun num_add :: "number \<Rightarrow> number \<Rightarrow> number" where
  "num_add (Num a) (Num b) = fl (a + b)"
| "num_add NaN y = NaN"
| "num_add x NaN = NaN"
| "num_add PosInfinity NegInfinity = NaN"
| "num_add NegInfinity PosInfinity = NaN"
| "num_add PosInfinity y = PosInfinity"
| "num_add NegInfinity y = NegInfinity"
| "num_add (Num a) PosInfinity = PosInfinity"
| "num_add (Num a) NegInfinity = NegInfinity"

subsection \<open>Sorting\<close>

text \<open>
  \<^verbatim>\<open>Array.prototype.sort(cmp)\<close> is stable: \<open>x\<close> moves behind \<open>y\<close> only when
  \<^verbatim>\<open>cmp(x, y) > 0\<close>. For a consistent comparator the result is determined by this; it is
  computed here by insertion from the right. (For an inconsistent comparator ECMAScript
  leaves the order to the implementation.)
\<close>

fun insert_sorted :: "('a \<Rightarrow> 'a \<Rightarrow> number) \<Rightarrow> 'a \<Rightarrow> 'a list \<Rightarrow> 'a list" where
  "insert_sorted cmp x [] = [x]"
| "insert_sorted cmp x (y # ys) =
     (if positive (cmp x y) then y # insert_sorted cmp x ys else x # y # ys)"

definition Array_sort :: "('a \<Rightarrow> 'a \<Rightarrow> number) \<Rightarrow> 'a list \<Rightarrow> 'a list" where
  "Array_sort cmp xs = foldr (insert_sorted cmp) xs []"

text \<open>An element of the array that \<^verbatim>\<open>searchToolsByVector\<close> resolves to.\<close>

record candidate =
  serverName :: string
  toolName :: string
  description :: string
  inputSchema :: jsval
  similarity :: real

text \<open>The object pushed to a server's \<^verbatim>\<open>tools\<close>:
  \<^verbatim>\<open>{name, description, inputSchema, similarity, serverName}\<close>.\<close>

record tool =
  name :: string
  tool_description :: string
  tool_inputSchema :: jsval
  tool_similarity :: real
  tool_serverName :: string

text \<open>A value of \<^verbatim>\<open>serverMap\<close>, and the object each is mapped to.\<close>

record server_entry =
  entry_serverName :: string
  entry_tools :: "tool list"

record server_group =
  group_serverName :: string
  group_tools :: "tool list"
  maxSimilarity :: number
  avgSimilarity :: number

definition sortedResults :: "candidate list \<Rightarrow> candidate list" where
  "sortedResults searchResults =
     Array_sort (\<lambda>a b. Num (similarity b - similarity a)) searchResults"

definition tool_of :: "candidate \<Rightarrow> tool" where
  "tool_of result =
     \<lparr>name = toolName result, tool_description = description result,
      tool_inputSchema = inputSchema result, tool_similarity = similarity result,
      tool_serverName = serverName result\<rparr>"

text \<open>A \<^verbatim>\<open>Map\<close> keeps its keys in insertion order: an association list with distinct
  keys, a new key going to the end.\<close>

definition Map_has :: "('k \<times> 'v) list \<Rightarrow> 'k \<Rightarrow> bool" where
  "Map_has m k = (map_of m k \<noteq> None)"

definition Map_set :: "('k \<times> 'v) list \<Rightarrow> 'k \<Rightarrow> 'v \<Rightarrow> ('k \<times> 'v) list" where
  "Map_set m k v =
     (if Map_has m k then map (\<lambda>(k', v'). if k' = k then (k', v) else (k', v')) m
      else m @ [(k, v)])"

text \<open>\<^verbatim>\<open>serverMap.get(k)!.tools.push(t)\<close> changes the entry stored under \<open>k\<close>.\<close>

definition push_tool :: "(string \<times> server_entry) list \<Rightarrow> string \<Rightarrow> tool \<Rightarrow> (string \<times> server_entry) list" where
  "push_tool m k t =
     map (\<lambda>(k', e). if k' = k then (k', e\<lparr>entry_tools := entry_tools e @ [t]\<rparr>) else (k', e)) m"

text \<open>The body of \<^verbatim>\<open>sortedResults.forEach\<close> (lines 90 to 105).\<close>

definition add_result :: "(string \<times> server_entry) list \<Rightarrow> candidate \<Rightarrow> (string \<times> server_entry) list" where
  "add_result m result =
     (let m' = (if \<not> Map_has m (serverName result)
                then Map_set m (serverName result)
                       \<lparr>entry_serverName = serverName result, entry_tools = []\<rparr>
                else m)
      in push_tool m' (serverName result) (tool_of result))"

definition serverMap :: "candidate list \<Rightarrow> (string \<times> server_entry) list" where
  "serverMap results = foldl add_result [] results"

fun Math_max :: "real list \<Rightarrow> number" where
  "Math_max [] = NegInfinity"
| "Math_max (x # xs) = Num (foldl max x xs)"

text \<open>\<^verbatim>\<open>acc / n\<close> for the length \<open>n\<close> of an array: the quotient is rounded; \<^verbatim>\<open>0 / 0\<close> is
  NaN, another number divided by 0 is an infinity.\<close>

definition divide_by_length :: "number \<Rightarrow> nat \<Rightarrow> number" where
  "divide_by_length acc n =
     (case acc of
        Num a \<Rightarrow>
          (if n = 0 then (if a = 0 then NaN else if 0 < a then PosInfinity else NegInfinity)
           else fl (a / real n))
      | PosInfinity \<Rightarrow> PosInfinity
      | NegInfinity \<Rightarrow> NegInfinity
      | NaN \<Rightarrow> NaN)"

text \<open>The callback of \<^verbatim>\<open>Array.from(serverMap.values()).map\<close> (lines 108 to 113): the
  tools are sorted in place first, the two scores are taken from the sorted array. The
  sum of \<^verbatim>\<open>reduce\<close> starts from 0 and adds the similarities from left to right, rounding
  after every addition.\<close>

definition score_server :: "server_entry \<Rightarrow> server_group" where
  "score_server server =
     (let tools = Array_sort (\<lambda>a b. Num (tool_similarity b - tool_similarity a)) (entry_tools server)
      in \<lparr>group_serverName = entry_serverName server,
          group_tools = tools,
          maxSimilarity = Math_max (map tool_similarity tools),
          avgSimilarity =
            divide_by_length
              (foldl (\<lambda>sum t. num_add sum (Num (tool_similarity t))) (Num 0) tools)
              (length tools)\<rparr>)"

definition servers :: "candidate list \<Rightarrow> server_group list" where
  "servers results =
     Array_sort (\<lambda>a b. num_sub (maxSimilarity b) (maxSimilarity a))
       (map score_server (map snd (serverMap results)))"

record search_metadata =
  md_query :: string
  md_threshold :: real
  totalResults :: nat
  serverCount :: nat
  guideline :: string
  nextSteps :: string

record search_data =
  data_tools :: "candidate list"
  data_servers :: "server_group list"
  data_metadata :: search_metadata

text \<open>Lines 85 to 137: the \<^verbatim>\<open>data\<close> of the search response, from the array the
  similarity search resolved to.\<close>

definition search_response_data :: "string \<Rightarrow> real \<Rightarrow> candidate list \<Rightarrow> search_data" where
  "search_response_data query threshold searchResults =
     (let results = sortedResults searchResults;
          groups = servers results
      in \<lparr>data_tools = results,
          data_servers = groups,
          data_metadata =
            \<lparr>md_query = query,
             md_threshold = threshold,
             totalResults = length results,
             serverCount = length groups,
             guideline =
               (if length results > 0
                then ''Found relevant tools. If these tools don't match exactly what you need, try another search with more specific keywords.''
                else ''No tools found. Try broadening your search or using different keywords.''),
             nextSteps =
               (if length results > 0
                then ''Use the found tools in your servers.''
                else ''Consider searching for related capabilities or more general terms.'')\<rparr>\<rparr>)"

section \<open>The two request handlers\<close>

text \<open>
  The handlers call three functions of the repository that are not among the sources
  read here: \<^verbatim>\<open>getSmartRoutingConfig\<close>, \<^verbatim>\<open>searchToolsByVector\<close> and
  \<^verbatim>\<open>handleCallToolRequest\<close>. They are parameters of the model. Each may read and change
  the state \<open>'w\<close> of the rest of the server, and returns a value (\<open>Inr\<close>) or throws
  (\<open>Inl\<close>; a rejected promise under \<^verbatim>\<open>await\<close> throws as well). What is thrown inside
  \<^verbatim>\<open>try\<close> is caught by the handler and answered with status 500. The lines written with
  \<^verbatim>\<open>console.log\<close> and \<^verbatim>\<open>console.error\<close> are not part of the model.
\<close>

record smart_routing_config =
  enabled :: bool

text \<open>\<^verbatim>\<open>mockRequest\<close> is \<^verbatim>\<open>{params: {name, arguments: {toolName, arguments}}}\<close>.\<close>

record mock_request =
  params_name :: string
  params_toolName :: jsval
  params_arguments :: jsval

record extra =
  sessionId :: string
  server :: "string option"

record tool_call_result =
  content :: "jsval list option"
  isError :: "bool option"

record 'w env =
  getSmartRoutingConfig :: "'w \<Rightarrow> (js_error + smart_routing_config) \<times> 'w"
  searchToolsByVector :: "string \<Rightarrow> int \<Rightarrow> real \<Rightarrow> 'w \<Rightarrow> (js_error + candidate list) \<times> 'w"
  handleCallToolRequest :: "mock_request \<Rightarrow> extra \<Rightarrow> 'w \<Rightarrow> (js_error + tool_call_result) \<times> 'w"

text \<open>The calls a handler makes to these functions, in order, with their arguments.\<close>

datatype call =
    GetSmartRoutingConfig
  | SearchToolsByVector string int real
  | HandleCallToolRequest mock_request extra

text \<open>What \<^verbatim>\<open>res.status(code).json(body)\<close> sends; \<^verbatim>\<open>res.json(body)\<close> sends status 200.\<close>

record 'd api_response =
  res_status :: nat
  res_success :: bool
  res_message :: "string option"
  res_error :: "string option"
  res_data :: "'d option"

record ('d, 'w) outcome =
  response :: "'d api_response"
  world :: 'w
  calls :: "call list"

definition failure :: "nat \<Rightarrow> string \<Rightarrow> string option \<Rightarrow> 'd api_response" where
  "failure code msg err =
     \<lparr>res_status = code, res_success = False, res_message = Some msg, res_error = err,
      res_data = None\<rparr>"

definition succeed :: "'d \<Rightarrow> 'd api_response" where
  "succeed d =
     \<lparr>res_status = 200, res_success = True, res_message = None, res_error = None,
      res_data = Some d\<rparr>"

subsection \<open>\<^verbatim>\<open>searchTools\<close>\<close>

definition searchTools :: "'w env \<Rightarrow> search_body \<Rightarrow> 'w \<Rightarrow> (search_data, 'w) outcome" where
  "searchTools env body w =
     (let query = body_query body;
          limit = default_limit (body_limit body);
          threshold = default_threshold (body_threshold body)
      in if \<not> truthy query \<or> \<not> is_string query
         then \<lparr>response = failure 400 ''Query parameter is required and must be a string'' None,
               world = w, calls = []\<rparr>
         else
           (case getSmartRoutingConfig env w of
              (Inl err, w1) \<Rightarrow>
                \<lparr>response = failure 500 ''Failed to search tools'' (Some (error_text err)),
                 world = w1, calls = [GetSmartRoutingConfig]\<rparr>
            | (Inr smartRoutingConfig, w1) \<Rightarrow>
                if \<not> enabled smartRoutingConfig
                then \<lparr>response =
                        failure 503 ''Smart routing is not enabled. Please enable it in settings.'' None,
                      world = w1, calls = [GetSmartRoutingConfig]\<rparr>
                else
                  (case limitNum limit of
                     Inl err \<Rightarrow>
                       \<lparr>response = failure 500 ''Failed to search tools'' (Some (error_text err)),
                        world = w1, calls = [GetSmartRoutingConfig]\<rparr>
                   | Inr l \<Rightarrow>
                       (let q = string_value query;
                            t = thresholdNum threshold q
                        in case searchToolsByVector env q l t w1 of
                             (Inl err, w2) \<Rightarrow>
                               \<lparr>response =
                                  failure 500 ''Failed to search tools'' (Some (error_text err)),
                                world = w2,
                                calls = [GetSmartRoutingConfig, SearchToolsByVector q l t]\<rparr>
                           | (Inr searchResults, w2) \<Rightarrow>
                               \<lparr>response = succeed (search_response_data q t searchResults),
                                world = w2,
                                calls = [GetSmartRoutingConfig, SearchToolsByVector q l t]\<rparr>))))"

subsection \<open>\<^verbatim>\<open>callTool\<close>\<close>

text \<open>What \<^verbatim>\<open>callTool\<close> reads of the request: the route parameter \<^verbatim>\<open>server\<close>, the header
  \<^verbatim>\<open>x-session-id\<close>, and the two fields of the body.\<close>

record call_request =
  params_server :: "string option"
  header_session_id :: "string option"
  body_toolName :: jsval
  body_arguments :: jsval

record call_data =
  data_content :: "jsval list"
  data_toolName :: jsval
  data_arguments :: jsval

text \<open>\<^verbatim>\<open>s || fallback\<close> on a string that may be absent: the empty string is falsy.\<close>

definition or_else :: "string option \<Rightarrow> 'a \<Rightarrow> (string \<Rightarrow> 'a) \<Rightarrow> 'a" where
  "or_else s fallback f = (case s of None \<Rightarrow> fallback | Some v \<Rightarrow> (if v = [] then fallback else f v))"

text \<open>\<^verbatim>\<open>arguments: toolArgs = {}\<close> in the destructuring of the body.\<close>

definition toolArgs :: "call_request \<Rightarrow> jsval" where
  "toolArgs req = (if body_arguments req = JUndefined then JObj [] else body_arguments req)"

definition mockRequest :: "call_request \<Rightarrow> mock_request" where
  "mockRequest req =
     \<lparr>params_name = ''call_tool'', params_toolName = body_toolName req,
      params_arguments = toolArgs req\<rparr>"

definition extra_of :: "call_request \<Rightarrow> extra" where
  "extra_of req =
     \<lparr>sessionId = or_else (header_session_id req) ''api-session'' (\<lambda>v. v),
      server = or_else (params_server req) None Some\<rparr>"

definition callTool :: "'w env \<Rightarrow> call_request \<Rightarrow> 'w \<Rightarrow> (call_data, 'w) outcome" where
  "callTool env req w =
     (let toolName = body_toolName req
      in if \<not> truthy toolName
         then \<lparr>response = failure 400 ''toolName is required'' None, world = w, calls = []\<rparr>
         else
           (case handleCallToolRequest env (mockRequest req) (extra_of req) w of
              (Inl err, w1) \<Rightarrow>
                \<lparr>response = failure 500 ''Failed to call tool'' (Some (error_text err)),
                 world = w1, calls = [HandleCallToolRequest (mockRequest req) (extra_of req)]\<rparr>
            | (Inr result, w1) \<Rightarrow>
                \<lparr>response =
                   succeed
                     \<lparr>data_content = (case content result of None \<Rightarrow> [] | Some c \<Rightarrow> c),
                      data_toolName = toolName,
                      data_arguments = toolArgs req\<rparr>,
                 world = w1, calls = [HandleCallToolRequest (mockRequest req) (extra_of req)]\<rparr>))"

subsection \<open>Sample collaborators\<close>

text \<open>A concrete environment for running the handlers: the state counts the calls to the
  similarity search and to the dispatch handler, smart routing is switched by \<open>on\<close>, the
  search resolves to \<open>found\<close> and the dispatch to \<open>result\<close>.\<close>

definition sample_env :: "bool \<Rightarrow> candidate list \<Rightarrow> tool_call_result \<Rightarrow> nat env" where
  "sample_env on found result =
     \<lparr>getSmartRoutingConfig = (\<lambda>w. (Inr \<lparr>enabled = on\<rparr>, w)),
      searchToolsByVector = (\<lambda>q l t w. (Inr found, Suc w)),
      handleCallToolRequest = (\<lambda>m e w. (Inr result, Suc w))\<rparr>"

text \<open>The three candidates of the end-to-end scenario of the specification. A decimal
  such as \<^verbatim>\<open>0.9\<close> stands for the double nearest to it.\<close>

definition sample_candidates :: "candidate list" where
  "sample_candidates =
     [\<lparr>serverName = ''A'', toolName = ''x'', description = [], inputSchema = JObj [],
       similarity = round_double 0.9\<rparr>,
      \<lparr>serverName = ''B'', toolName = ''y'', description = [], inputSchema = JObj [],
       similarity = round_double 0.95\<rparr>,
      \<lparr>serverName = ''A'', toolName = ''z'', description = [], inputSchema = JObj [],
       similarity = round_double 0.8\<rparr>]"

text \<open>Three candidates of one server with the similarity \<^verbatim>\<open>0.1\<close>.\<close>

definition tenth_candidates :: "candidate list" where
  "tenth_candidates =
     [\<lparr>serverName = ''A'', toolName = ''a'', description = [], inputSchema = JObj [],
       similarity = round_double 0.1\<rparr>,
      \<lparr>serverName = ''A'', toolName = ''b'', description = [], inputSchema = JObj [],
       similarity = round_double 0.1\<rparr>,
      \<lparr>serverName = ''A'', toolName = ''c'', description = [], inputSchema = JObj [],
       similarity = round_double 0.1\<rparr>]"

section \<open>The threshold of a search request\<close>

lemma thresholdNum_not_number:
  "\<not> is_number threshold \<Longrightarrow>
   thresholdNum threshold query =
     (if length query > 30 \<or> includes_str query ''specific'' \<or> includes_str query ''exact''
      then 0.75
      else if length query < 10 \<or> length (split_on (CHR '' '') query) \<le> 2 then 0.5
      else 0.65)"
  by (cases threshold) (simp_all add: thresholdNum_def)

lemma thresholdNum_null_sync_files:
  "thresholdNum (default_threshold JNull) ''sync files'' = 0.5"
  by (simp add: thresholdNum_def default_threshold_def)

lemma default_threshold_is_number:
  "is_number (default_threshold JUndefined)"
  by (simp add: default_threshold_def)

text \<open>
  C1. The adjustment by the query runs when the threshold is present and not a number
  (\<open>thresholdNum_not_number\<close>), but not when the field is omitted: the destructuring
  default has then made the threshold the number 0.65, and the request with query
  \<^verbatim>\<open>sync files\<close> and no threshold searches with threshold 0.65, not 0.5.
\<close>

theorem C1_omitted_threshold_searches_with_default:
  "calls (searchTools (env\<lparr>getSmartRoutingConfig := (\<lambda>w. (Inr \<lparr>enabled = True\<rparr>, w))\<rparr>)
            \<lparr>body_query = JStr ''sync files'', body_limit = JUndefined,
             body_threshold = JUndefined\<rparr> w)
   = [GetSmartRoutingConfig, SearchToolsByVector ''sync files'' 10 0.65]"
proof -
  have t: "thresholdNum (default_threshold JUndefined) ''sync files'' = 0.65"
    by (simp add: thresholdNum_def default_threshold_def clamp01_def dec_value_def)
  have l: "limitNum (default_limit JUndefined) = Inr 10"
    by code_simp
  show ?thesis
    by (simp add: searchTools_def Let_def t l split: prod.split sum.split)
qed

theorem C1_omitted_threshold_witness:
  "calls (searchTools (sample_env True [] \<lparr>content = None, isError = None\<rparr>)
            \<lparr>body_query = JStr ''sync files'', body_limit = JUndefined,
             body_threshold = JUndefined\<rparr> 0)
   = [GetSmartRoutingConfig, SearchToolsByVector ''sync files'' 10 0.65]"
  using C1_omitted_threshold_searches_with_default
          [of "sample_env True [] \<lparr>content = None, isError = None\<rparr>" 0]
  by (simp add: sample_env_def)

section \<open>Validation and the feature gate\<close>

lemma searchTools_invalid_query:
  "\<not> truthy (body_query body) \<or> \<not> is_string (body_query body) \<Longrightarrow>
   searchTools env body w =
     \<lparr>response = failure 400 ''Query parameter is required and must be a string'' None,
      world = w, calls = []\<rparr>"
  by (simp add: searchTools_def Let_def)

lemma callTool_no_toolName:
  "\<not> truthy (body_toolName req) \<Longrightarrow>
   callTool env req w =
     \<lparr>response = failure 400 ''toolName is required'' None, world = w, calls = []\<rparr>"
  by (simp add: callTool_def Let_def)

lemma callTool_calls:
  "calls (callTool env req w) = [] \<or>
   calls (callTool env req w) = [HandleCallToolRequest (mockRequest req) (extra_of req)]"
  by (simp add: callTool_def Let_def split: prod.split sum.split)

text \<open>
  C5. A search request whose query is missing or not a string, and an invocation request
  whose toolName is missing, are answered with the validation failure (status 400) before
  any collaborator is called: the list of calls is empty, so neither the similarity search
  nor the dispatch handler has run, and the state is the one the handler started from.
\<close>

theorem C5_validation_failure_before_downstream_work:
  "(body_query body = JUndefined \<or> \<not> is_string (body_query body) \<longrightarrow>
      searchTools env body w =
        \<lparr>response = failure 400 ''Query parameter is required and must be a string'' None,
         world = w, calls = []\<rparr>) \<and>
   (body_toolName req = JUndefined \<longrightarrow>
      callTool env req w =
        \<lparr>response = failure 400 ''toolName is required'' None, world = w, calls = []\<rparr>)"
proof (intro conjI impI)
  assume "body_query body = JUndefined \<or> \<not> is_string (body_query body)"
  then have "\<not> truthy (body_query body) \<or> \<not> is_string (body_query body)"
    by auto
  then show "searchTools env body w =
        \<lparr>response = failure 400 ''Query parameter is required and must be a string'' None,
         world = w, calls = []\<rparr>"
    by (rule searchTools_invalid_query)
next
  assume "body_toolName req = JUndefined"
  then have "\<not> truthy (body_toolName req)"
    by simp
  then show "callTool env req w =
        \<lparr>response = failure 400 ''toolName is required'' None, world = w, calls = []\<rparr>"
    by (rule callTool_no_toolName)
qed

theorem C5_validation_failure_witness:
  "searchTools (sample_env True [] \<lparr>content = None, isError = None\<rparr>)
     \<lparr>body_query = JNum (Dec False 5 0), body_limit = JUndefined, body_threshold = JUndefined\<rparr> 0 =
     \<lparr>response = failure 400 ''Query parameter is required and must be a string'' None,
      world = 0, calls = []\<rparr> \<and>
   callTool (sample_env True [] \<lparr>content = None, isError = None\<rparr>)
     \<lparr>params_server = None, header_session_id = None, body_toolName = JUndefined,
      body_arguments = JObj []\<rparr> 0 =
     \<lparr>response = failure 400 ''toolName is required'' None, world = 0, calls = []\<rparr>"
  using C5_validation_failure_before_downstream_work
          [of "\<lparr>body_query = JNum (Dec False 5 0), body_limit = JUndefined,
                 body_threshold = JUndefined\<rparr>"
              "sample_env True [] \<lparr>content = None, isError = None\<rparr>" 0
              "\<lparr>params_server = None, header_session_id = None, body_toolName = JUndefined,
                 body_arguments = JObj []\<rparr>"]
  by simp

text \<open>
  C10. In the search operation the query is validated before the feature gate: a request
  whose query is missing or not a string gets the validation failure, never the
  feature-disabled failure, whatever the configuration says. The configuration is not read
  for it (no call to \<^verbatim>\<open>getSmartRoutingConfig\<close>), and the outcome is the same under any
  two environments.
\<close>

theorem C10_query_validation_precedes_feature_gate:
  assumes "body_query body = JUndefined \<or> \<not> is_string (body_query body)"
  shows "response (searchTools env body w) =
           failure 400 ''Query parameter is required and must be a string'' None \<and>
         response (searchTools env body w) \<noteq>
           failure 503 ''Smart routing is not enabled. Please enable it in settings.'' None \<and>
         GetSmartRoutingConfig \<notin> set (calls (searchTools env body w)) \<and>
         searchTools env body w = searchTools env' body w"
proof -
  from assms have bad: "\<not> truthy (body_query body) \<or> \<not> is_string (body_query body)"
    by auto
  have a: "searchTools env body w =
     \<lparr>response = failure 400 ''Query parameter is required and must be a string'' None,
      world = w, calls = []\<rparr>"
    using bad by (rule searchTools_invalid_query)
  have b: "searchTools env' body w =
     \<lparr>response = failure 400 ''Query parameter is required and must be a string'' None,
      world = w, calls = []\<rparr>"
    using bad by (rule searchTools_invalid_query)
  have c: "(failure 400 ''Query parameter is required and must be a string'' None :: search_data api_response)
           \<noteq> failure 503 ''Smart routing is not enabled. Please enable it in settings.'' None"
    by (simp add: failure_def)
  show ?thesis
    using c by (simp add: a b)
qed

theorem C10_query_validation_witness:
  "response (searchTools (sample_env False [] \<lparr>content = None, isError = None\<rparr>)
      \<lparr>body_query = JUndefined, body_limit = JUndefined, body_threshold = JUndefined\<rparr> 0) =
     failure 400 ''Query parameter is required and must be a string'' None \<and>
   GetSmartRoutingConfig \<notin> set (calls (searchTools (sample_env False [] \<lparr>content = None, isError = None\<rparr>)
      \<lparr>body_query = JUndefined, body_limit = JUndefined, body_threshold = JUndefined\<rparr> 0))"
  using C10_query_validation_precedes_feature_gate
          [of "\<lparr>body_query = JUndefined, body_limit = JUndefined, body_threshold = JUndefined\<rparr>"
              "sample_env False [] \<lparr>content = None, isError = None\<rparr>" 0]
  by simp

text \<open>
  C4. With a valid query (a non-empty string) and a configuration in which smart routing
  is not enabled, the search operation answers with the feature-disabled failure (status
  503) after its one call, the read of the configuration: the similarity search is not
  called. The invocation operation never reads the configuration, and its outcome does not
  change when \<^verbatim>\<open>getSmartRoutingConfig\<close> is replaced by any other function.
\<close>

theorem C4_feature_gate_on_search_only:
  assumes "truthy (body_query body)" and "is_string (body_query body)"
    and "getSmartRoutingConfig env w = (Inr cfg, w')" and "\<not> enabled cfg"
  shows "searchTools env body w =
           \<lparr>response =
              failure 503 ''Smart routing is not enabled. Please enable it in settings.'' None,
            world = w', calls = [GetSmartRoutingConfig]\<rparr> \<and>
         GetSmartRoutingConfig \<notin> set (calls (callTool env req w)) \<and>
         callTool (env\<lparr>getSmartRoutingConfig := g\<rparr>) req w = callTool env req w"
proof (intro conjI)
  show "searchTools env body w =
           \<lparr>response =
              failure 503 ''Smart routing is not enabled. Please enable it in settings.'' None,
            world = w', calls = [GetSmartRoutingConfig]\<rparr>"
    using assms by (simp add: searchTools_def Let_def)
  show "GetSmartRoutingConfig \<notin> set (calls (callTool env req w))"
    using callTool_calls [of env req w] by auto
  show "callTool (env\<lparr>getSmartRoutingConfig := g\<rparr>) req w = callTool env req w"
    by (simp add: callTool_def Let_def)
qed

theorem C4_feature_gate_witness:
  "searchTools (sample_env False [] \<lparr>content = None, isError = None\<rparr>)
     \<lparr>body_query = JStr ''sync files'', body_limit = JUndefined, body_threshold = JUndefined\<rparr> 0 =
     \<lparr>response =
        failure 503 ''Smart routing is not enabled. Please enable it in settings.'' None,
      world = 0, calls = [GetSmartRoutingConfig]\<rparr> \<and>
   res_success (response (callTool (sample_env False [] \<lparr>content = Some [], isError = None\<rparr>)
     \<lparr>params_server = None, header_session_id = None, body_toolName = JStr ''echo'',
      body_arguments = JUndefined\<rparr> 0))"
proof -
  have "searchTools (sample_env False [] \<lparr>content = None, isError = None\<rparr>)
     \<lparr>body_query = JStr ''sync files'', body_limit = JUndefined, body_threshold = JUndefined\<rparr> 0 =
     \<lparr>response =
        failure 503 ''Smart routing is not enabled. Please enable it in settings.'' None,
      world = 0, calls = [GetSmartRoutingConfig]\<rparr>"
    using C4_feature_gate_on_search_only
          [of "\<lparr>body_query = JStr ''sync files'', body_limit = JUndefined,
                 body_threshold = JUndefined\<rparr>"
              "sample_env False [] \<lparr>content = None, isError = None\<rparr>" 0
              "\<lparr>enabled = False\<rparr>" 0]
    by (simp add: sample_env_def)
  moreover have "res_success (response (callTool (sample_env False [] \<lparr>content = Some [], isError = None\<rparr>)
     \<lparr>params_server = None, header_session_id = None, body_toolName = JStr ''echo'',
      body_arguments = JUndefined\<rparr> 0))"
    by (simp add: callTool_def sample_env_def succeed_def Let_def)
  ultimately show ?thesis by simp
qed

section \<open>The response of the invocation operation\<close>

text \<open>
  C2. When the request names a tool and the dispatch handler returns a result, the
  invocation operation answers with status 200 and \<^verbatim>\<open>success: true\<close>; its \<^verbatim>\<open>data\<close> holds
  the content of the result, the toolName and the arguments of the request. The field
  \<^verbatim>\<open>isError\<close> of the result is not read, so this holds when it is true as well. A result
  without content gives the empty content.
\<close>

theorem C2_dispatch_result_is_http_success:
  assumes "truthy (body_toolName req)"
    and "handleCallToolRequest env (mockRequest req) (extra_of req) w = (Inr result, w')"
  shows "response (callTool env req w) =
           \<lparr>res_status = 200, res_success = True, res_message = None, res_error = None,
            res_data = Some \<lparr>data_content = (case content result of None \<Rightarrow> [] | Some c \<Rightarrow> c),
                             data_toolName = body_toolName req,
                             data_arguments = toolArgs req\<rparr>\<rparr> \<and>
         (content result = None \<longrightarrow>
            map_option data_content (res_data (response (callTool env req w))) = Some [])"
  using assms by (simp add: callTool_def Let_def succeed_def)

theorem C2_dispatch_result_witness:
  "response (callTool (sample_env True [] \<lparr>content = None, isError = Some True\<rparr>)
     \<lparr>params_server = None, header_session_id = None, body_toolName = JStr ''echo'',
      body_arguments = JObj [(''text'', JStr ''hi'')]\<rparr> 0) =
     \<lparr>res_status = 200, res_success = True, res_message = None, res_error = None,
      res_data = Some \<lparr>data_content = [], data_toolName = JStr ''echo'',
                       data_arguments = JObj [(''text'', JStr ''hi'')]\<rparr>\<rparr>"
  using C2_dispatch_result_is_http_success
          [of "\<lparr>params_server = None, header_session_id = None, body_toolName = JStr ''echo'',
                 body_arguments = JObj [(''text'', JStr ''hi'')]\<rparr>"
              "sample_env True [] \<lparr>content = None, isError = Some True\<rparr>" 0
              "\<lparr>content = None, isError = Some True\<rparr>" "Suc 0"]
  by (simp add: sample_env_def toolArgs_def)

section \<open>Ranking and grouping: sorting\<close>

text \<open>\<open>Array_sort\<close> permutes its input for every comparator. For the comparators of the
  handler, differences of real scores, it is the stable sort by descending score.\<close>

lemma mset_insert_sorted: "mset (insert_sorted cmp x ys) = add_mset x (mset ys)"
  by (induction ys) simp_all

lemma mset_Array_sort: "mset (Array_sort cmp xs) = mset xs"
  by (induction xs) (simp_all add: Array_sort_def mset_insert_sorted)

lemma set_Array_sort: "set (Array_sort cmp xs) = set xs"
  using mset_Array_sort [of cmp xs] by (metis set_mset_mset)

lemma length_Array_sort: "length (Array_sort cmp xs) = length xs"
  using mset_Array_sort [of cmp xs] by (metis size_mset)

lemma insert_sorted_insort_key:
  fixes f :: "'a \<Rightarrow> real"
  assumes "\<And>y. y \<in> set ys \<Longrightarrow> positive (cmp x y) = (f x < f y)"
  shows "insert_sorted cmp x ys = insort_key (\<lambda>z. - f z) x ys"
  using assms by (induction ys) auto

lemma Array_sort_sort_key:
  fixes f :: "'a \<Rightarrow> real"
  assumes "\<And>x y. x \<in> set xs \<Longrightarrow> y \<in> set xs \<Longrightarrow> positive (cmp x y) = (f x < f y)"
  shows "Array_sort cmp xs = sort_key (\<lambda>z. - f z) xs"
  using assms
proof (induction xs)
  case Nil
  then show ?case by (simp add: Array_sort_def)
next
  case (Cons x xs)
  have ih: "Array_sort cmp xs = sort_key (\<lambda>z. - f z) xs"
    using Cons by simp
  have "insert_sorted cmp x (sort_key (\<lambda>z. - f z) xs) = insort_key (\<lambda>z. - f z) x (sort_key (\<lambda>z. - f z) xs)"
    by (rule insert_sorted_insort_key) (simp add: Cons.prems)
  then show ?case
    using ih by (simp add: Array_sort_def)
qed

lemma Array_sort_by_difference:
  fixes f :: "'a \<Rightarrow> real"
  shows "Array_sort (\<lambda>a b. Num (f b - f a)) xs = sort_key (\<lambda>z. - f z) xs"
  by (rule Array_sort_sort_key) simp

lemma sorted_desc_sort_key:
  fixes f :: "'a \<Rightarrow> real"
  shows "sorted_wrt (\<lambda>a b. f b \<le> f a) (sort_key (\<lambda>z. - f z) xs)"
proof -
  have "sorted (map (\<lambda>z. - f z) (sort_key (\<lambda>z. - f z) xs))"
    by (rule sorted_sort_key)
  then show ?thesis
    by (simp add: sorted_map)
qed

lemma sort_key_desc_id:
  fixes f :: "'a \<Rightarrow> real"
  assumes "sorted_wrt (\<lambda>a b. f b \<le> f a) xs"
  shows "sort_key (\<lambda>z. - f z) xs = xs"
  using assms by (intro sort_key_id_if_sorted) (simp add: sorted_map)

section \<open>Ranking and grouping: the map of servers\<close>

text \<open>After the loop over the results, \<open>serverMap\<close> holds one entry per server name that
  occurs, and the entry holds the tools of exactly the results of that server, in the
  order of the results.\<close>

lemma map_fst_push_tool: "map fst (push_tool m k t) = map fst m"
  by (induction m) (auto simp: push_tool_def)

lemma push_tool_absent: "k \<notin> fst ` set m \<Longrightarrow> push_tool m k t = m"
  by (induction m) (auto simp: push_tool_def)

lemma push_tool_append:
  "push_tool (m @ m') k t = push_tool m k t @ push_tool m' k t"
  by (simp add: push_tool_def)

lemma map_of_push_tool:
  "map_of (push_tool m k t) k' =
     (if k' = k then map_option (\<lambda>e. e\<lparr>entry_tools := entry_tools e @ [t]\<rparr>) (map_of m k)
      else map_of m k')"
  by (induction m) (auto simp: push_tool_def)

lemma map_fst_add_result:
  "map fst (add_result m r) =
     (if serverName r \<in> fst ` set m then map fst m else map fst m @ [serverName r])"
  by (auto simp: add_result_def Map_has_def Map_set_def map_fst_push_tool map_of_eq_None_iff)

lemma distinct_add_result:
  "distinct (map fst m) \<Longrightarrow> distinct (map fst (add_result m r))"
  by (simp add: map_fst_add_result)

lemma map_of_add_result:
  "map_of (add_result m r) k =
     (if k = serverName r
      then Some (case map_of m k of
                   None \<Rightarrow> \<lparr>entry_serverName = k, entry_tools = [tool_of r]\<rparr>
                 | Some e \<Rightarrow> e\<lparr>entry_tools := entry_tools e @ [tool_of r]\<rparr>)
      else map_of m k)"
  by (auto simp: add_result_def Map_has_def Map_set_def map_of_push_tool map_add_def split: option.splits)

lemma distinct_foldl_add_result:
  "distinct (map fst m) \<Longrightarrow> distinct (map fst (foldl add_result m rs))"
  by (induction rs arbitrary: m) (simp_all add: distinct_add_result)

lemma map_of_foldl_add_result:
  "map_of (foldl add_result m rs) k =
     (case map_of m k of
        Some e \<Rightarrow> Some (e\<lparr>entry_tools := entry_tools e @ map tool_of (filter (\<lambda>r. serverName r = k) rs)\<rparr>)
      | None \<Rightarrow>
          (if k \<in> serverName ` set rs
           then Some \<lparr>entry_serverName = k,
                      entry_tools = map tool_of (filter (\<lambda>r. serverName r = k) rs)\<rparr>
           else None))"
proof (induction rs arbitrary: m)
  case Nil
  then show ?case by (simp split: option.splits)
next
  case (Cons r rs)
  show ?case
    by (auto simp: Cons.IH map_of_add_result split: option.splits)
qed

lemma distinct_serverMap: "distinct (map fst (serverMap rs))"
  by (simp add: serverMap_def distinct_foldl_add_result)

lemma map_of_serverMap:
  "map_of (serverMap rs) k =
     (if k \<in> serverName ` set rs
      then Some \<lparr>entry_serverName = k,
                 entry_tools = map tool_of (filter (\<lambda>r. serverName r = k) rs)\<rparr>
      else None)"
  by (simp add: serverMap_def map_of_foldl_add_result)

lemma in_serverMap_iff:
  "(k, e) \<in> set (serverMap rs) \<longleftrightarrow>
     k \<in> serverName ` set rs \<and>
     e = \<lparr>entry_serverName = k, entry_tools = map tool_of (filter (\<lambda>r. serverName r = k) rs)\<rparr>"
proof -
  have "(k, e) \<in> set (serverMap rs) \<longleftrightarrow> map_of (serverMap rs) k = Some e"
    using distinct_serverMap [of rs] by simp
  then show ?thesis
    by (auto simp: map_of_serverMap)
qed

lemma sum_push_tool:
  "distinct (map fst m) \<Longrightarrow> k \<in> fst ` set m \<Longrightarrow>
   (\<Sum>p\<leftarrow>push_tool m k t. length (entry_tools (snd p))) = Suc (\<Sum>p\<leftarrow>m. length (entry_tools (snd p)))"
proof (induction m)
  case Nil
  then show ?case by simp
next
  case (Cons p m)
  show ?case
  proof (cases "fst p = k")
    case True
    then have "k \<notin> fst ` set m" using Cons.prems by auto
    then have "push_tool m k t = m" by (rule push_tool_absent)
    moreover have "push_tool (p # m) k t = (fst p, (snd p)\<lparr>entry_tools := entry_tools (snd p) @ [t]\<rparr>) # push_tool m k t"
      using True by (cases p) (simp add: push_tool_def)
    ultimately show ?thesis by simp
  next
    case False
    then have "k \<in> fst ` set m" using Cons.prems by auto
    moreover have "push_tool (p # m) k t = p # push_tool m k t"
      using False by (cases p) (simp add: push_tool_def)
    ultimately show ?thesis using Cons by simp
  qed
qed

lemma sum_add_result:
  assumes "distinct (map fst m)"
  shows "(\<Sum>p\<leftarrow>add_result m r. length (entry_tools (snd p))) = Suc (\<Sum>p\<leftarrow>m. length (entry_tools (snd p)))"
proof (cases "serverName r \<in> fst ` set m")
  case True
  then have "add_result m r = push_tool m (serverName r) (tool_of r)"
    by (simp add: add_result_def Map_has_def map_of_eq_None_iff)
  then show ?thesis
    using sum_push_tool [OF assms True] by simp
next
  case False
  then have "add_result m r =
      m @ [(serverName r, \<lparr>entry_serverName = serverName r, entry_tools = [tool_of r]\<rparr>)]"
    by (simp add: add_result_def Map_has_def Map_set_def map_of_eq_None_iff push_tool_append
        push_tool_absent) (simp add: push_tool_def)
  then show ?thesis by simp
qed

lemma sum_foldl_add_result:
  "distinct (map fst m) \<Longrightarrow>
   (\<Sum>p\<leftarrow>foldl add_result m rs. length (entry_tools (snd p))) =
     (\<Sum>p\<leftarrow>m. length (entry_tools (snd p))) + length rs"
  by (induction rs arbitrary: m) (simp_all add: distinct_add_result sum_add_result)

lemma sum_serverMap:
  "(\<Sum>p\<leftarrow>serverMap rs. length (entry_tools (snd p))) = length rs"
  using sum_foldl_add_result [of "[]" rs] by (simp add: serverMap_def)

section \<open>Rounding to a double\<close>

text \<open>The exponent search finds the binade of its argument, \<open>round_double\<close> moves its
  argument by at most half a unit in the last place, and a result of moderate size is
  finite. The rounded sum and quotient of \<^verbatim>\<open>avgSimilarity\<close> then stay close to the exact
  mean.\<close>

lemma round_even_error: "\<bar>of_int (round_even y) - y\<bar> \<le> 1 / 2"
  unfolding round_even_def Let_def by (auto; linarith)

lemma round_even_unique:
  assumes "\<bar>y - of_int m\<bar> < 1 / 2"
  shows "round_even y = m"
proof -
  have "\<bar>of_int (round_even y) - y\<bar> \<le> 1 / 2"
    by (rule round_even_error)
  then have "\<bar>(of_int (round_even y) :: real) - of_int m\<bar> < 1"
    using assms by linarith
  then have "\<bar>round_even y - m\<bar> < 1"
    by (metis of_int_abs of_int_diff of_int_less_1_iff)
  then show ?thesis by simp
qed

lemma binade_up_eq:
  "2 ^ j \<le> x \<Longrightarrow> x < 2 ^ Suc j \<Longrightarrow> j < k \<Longrightarrow> binade_up k x e = e + int j"
proof (induction k arbitrary: x e j)
  case 0
  then show ?case by simp
next
  case (Suc k)
  show ?case
  proof (cases "x < 2")
    case True
    have "j = 0"
    proof (rule ccontr)
      assume "j \<noteq> 0"
      then have "(2::real) ^ 1 \<le> 2 ^ j" by (intro power_increasing) auto
      then show False using True Suc.prems(1) by simp
    qed
    then show ?thesis using True by simp
  next
    case False
    then obtain i where j: "j = Suc i"
      using Suc.prems(2) by (cases j) auto
    have "binade_up k (x / 2) (e + 1) = e + 1 + int i"
      using Suc.prems j by (intro Suc.IH) (simp_all add: field_simps)
    then show ?thesis using False j by simp
  qed
qed

lemma binade_up_le:
  "x < 2 ^ Suc j \<Longrightarrow> binade_up k x e \<le> e + int j"
proof (induction k arbitrary: x e j)
  case 0
  then show ?case by simp
next
  case (Suc k)
  show ?case
  proof (cases "x < 2")
    case True
    then show ?thesis by simp
  next
    case False
    then obtain i where j: "j = Suc i"
      using Suc.prems by (cases j) auto
    have "binade_up k (x / 2) (e + 1) \<le> e + 1 + int i"
      using Suc.prems j by (intro Suc.IH) (simp_all add: field_simps)
    then show ?thesis using False j by simp
  qed
qed

lemma binade_down_eq:
  "1 \<le> x * 2 ^ j \<Longrightarrow> x * 2 ^ j < 2 \<Longrightarrow> j < k \<Longrightarrow> binade_down k x e = e - int j"
proof (induction k arbitrary: x e j)
  case 0
  then show ?case by simp
next
  case (Suc k)
  show ?case
  proof (cases "1 \<le> x")
    case True
    have "j = 0"
    proof (rule ccontr)
      assume "j \<noteq> 0"
      then have p: "(2::real) ^ 1 \<le> 2 ^ j" by (intro power_increasing) auto
      have "1 * 2 \<le> x * 2 ^ j"
        by (rule mult_mono) (use True p in simp_all)
      then show False using Suc.prems(2) by linarith
    qed
    then show ?thesis using True by simp
  next
    case False
    then obtain i where j: "j = Suc i"
      using Suc.prems(1) by (cases j) auto
    have "binade_down k (2 * x) (e - 1) = e - 1 - int i"
      using Suc.prems j by (intro Suc.IH) (simp_all add: field_simps)
    then show ?thesis using False j by simp
  qed
qed

lemma binade_down_exhausted:
  "x * 2 ^ k < 2 \<Longrightarrow> 0 \<le> x \<Longrightarrow> x < 1 \<Longrightarrow> binade_down k x e = e - int k"
proof (induction k arbitrary: x e)
  case 0
  then show ?case by simp
next
  case (Suc k)
  have "binade_down k (2 * x) (e - 1) = e - 1 - int k" if "k \<noteq> 0"
  proof (rule Suc.IH)
    show "2 * x * 2 ^ k < 2" using Suc.prems by (simp add: field_simps)
    show "0 \<le> 2 * x" using Suc.prems by simp
    have p: "(2::real) ^ 1 \<le> 2 ^ k" using that by (intro power_increasing) auto
    have "(2 * x) * 2 \<le> (2 * x) * 2 ^ k"
      by (rule mult_left_mono) (use Suc.prems(2) p in simp_all)
    then show "2 * x < 1" using \<open>2 * x * 2 ^ k < 2\<close> by linarith
  qed
  then show ?case using Suc.prems by (cases "k = 0") simp_all
qed

lemma binade_down_le: "binade_down k x e \<le> e"
proof (induction k arbitrary: x e)
  case 0
  then show ?case by simp
next
  case (Suc k)
  have "binade_down k (2 * x) (e - 1) \<le> e - 1" by (rule Suc.IH)
  then show ?case by simp
qed

lemma binade_down_ge: "e - int k \<le> binade_down k x e"
proof (induction k arbitrary: x e)
  case 0
  then show ?case by simp
next
  case (Suc k)
  have "e - 1 - int k \<le> binade_down k (2 * x) (e - 1)" by (rule Suc.IH)
  then show ?case by simp
qed

lemma binade_up_ge: "e \<le> binade_up k x e"
proof (induction k arbitrary: x e)
  case 0
  then show ?case by simp
next
  case (Suc k)
  have "e + 1 \<le> binade_up k (x / 2) (e + 1)" by (rule Suc.IH)
  then show ?case by simp
qed

lemma exponent_le:
  assumes "\<bar>x\<bar> < 2 ^ Suc j"
  shows "exponent x \<le> int j"
proof (cases "1 \<le> \<bar>x\<bar>")
  case True
  then show ?thesis
    using binade_up_le [OF assms, of 1024 0] by (simp add: exponent_def)
next
  case False
  then show ?thesis
    using binade_down_le [of 1022 "\<bar>x\<bar>" 0] by (simp add: exponent_def)
qed

lemma exponent_ge: "- 1022 \<le> exponent x"
proof (cases "1 \<le> \<bar>x\<bar>")
  case True
  then show ?thesis
    using binade_up_ge [of 0 1024 "\<bar>x\<bar>"] by (simp add: exponent_def)
next
  case False
  then show ?thesis
    using binade_down_ge [of 0 1022 "\<bar>x\<bar>"] by (simp add: exponent_def)
qed


lemma round_even_tie:
  assumes "y = of_int f + 1 / 2"
  shows "round_even y = (if even f then f else f + 1)"
proof -
  have "\<lfloor>y\<rfloor> = f"
    unfolding assms by linarith
  then show ?thesis
    by (simp add: round_even_def Let_def assms)
qed

lemma exponent_eq_gen:
  assumes "2 ^ n \<le> \<bar>x\<bar> * 2 ^ p" and "\<bar>x\<bar> * 2 ^ p < 2 ^ Suc n"
    and "p < n + 1022" and "n < p + 1024"
  shows "exponent x = int n - int p"
proof (cases "p \<le> n")
  case True
  define j where "j = n - p"
  have n: "n = j + p" using True by (simp add: j_def)
  have "2 ^ j * 2 ^ p \<le> \<bar>x\<bar> * 2 ^ p"
    using assms(1) by (simp add: n power_add)
  then have lo: "2 ^ j \<le> \<bar>x\<bar>"
    by simp
  have "\<bar>x\<bar> * 2 ^ p < 2 ^ Suc j * 2 ^ p"
    using assms(2) by (simp add: n power_add)
  then have hi: "\<bar>x\<bar> < 2 ^ Suc j"
    by simp
  have "(1::real) \<le> 2 ^ j" by simp
  then have one: "1 \<le> \<bar>x\<bar>" using lo by linarith
  have "binade_up 1024 \<bar>x\<bar> 0 = 0 + int j"
    by (rule binade_up_eq [OF lo hi]) (use assms(4) in \<open>simp add: j_def\<close>)
  then show ?thesis
    using one True by (simp add: exponent_def j_def)
next
  case False
  define j where "j = p - n"
  have p: "p = j + n" using False by (simp add: j_def)
  have "1 * 2 ^ n \<le> (\<bar>x\<bar> * 2 ^ j) * 2 ^ n"
    using assms(1) by (simp add: p power_add mult.assoc)
  then have lo: "1 \<le> \<bar>x\<bar> * 2 ^ j"
    by (simp only: mult_le_cancel_right) simp
  have "(\<bar>x\<bar> * 2 ^ j) * 2 ^ n < 2 * 2 ^ n"
    using assms(2) by (simp add: p power_add mult.assoc)
  then have hi: "\<bar>x\<bar> * 2 ^ j < 2"
    by (simp only: mult_less_cancel_right) simp
  have j: "0 < j" using False by (simp add: j_def)
  have "(2::real) ^ 1 \<le> 2 ^ j" using j by (intro power_increasing) auto
  then have "\<bar>x\<bar> * 2 \<le> \<bar>x\<bar> * 2 ^ j"
    by (intro mult_left_mono) simp_all
  then have small: "\<not> 1 \<le> \<bar>x\<bar>" using hi by linarith
  have "binade_down 1022 \<bar>x\<bar> 0 = 0 - int j"
    by (rule binade_down_eq [OF lo hi]) (use assms(3) in \<open>simp add: j_def\<close>)
  then show ?thesis
    using small False by (simp add: exponent_def j_def)
qed

lemma exponent_eq:
  assumes "2 ^ 52 \<le> \<bar>x\<bar> * 2 ^ p" and "\<bar>x\<bar> * 2 ^ p < 2 ^ 53" and "p < 1074"
  shows "exponent x = 52 - int p"
proof -
  have "\<bar>x\<bar> * 2 ^ p < 2 ^ Suc 52"
    using assms(2) by simp
  then have "exponent x = int 52 - int p"
    using assms(1,3) by (intro exponent_eq_gen) simp_all
  then show ?thesis by simp
qed

lemma round_double_scaled:
  assumes "exponent x = 52 - int p"
  shows "round_double x = of_int (round_even (x * 2 ^ p)) / 2 ^ p"
proof -
  have "(2::real) powi (exponent x - 52) = 1 / 2 ^ p"
    by (simp add: assms power_int_minus field_simps)
  then show ?thesis
    by (simp add: round_double_def Let_def)
qed

lemma round_double_nearest:
  assumes "2 ^ 52 \<le> \<bar>x\<bar> * 2 ^ p" and "\<bar>x\<bar> * 2 ^ p < 2 ^ 53" and "p < 1074"
    and "\<bar>x * 2 ^ p - of_int m\<bar> < 1 / 2"
  shows "round_double x = of_int m / 2 ^ p"
  using round_double_scaled [OF exponent_eq [OF assms(1-3)]] round_even_unique [OF assms(4)]
  by simp

lemma round_double_tie:
  assumes "2 ^ 52 \<le> \<bar>x\<bar> * 2 ^ p" and "\<bar>x\<bar> * 2 ^ p < 2 ^ 53" and "p < 1074"
    and "x * 2 ^ p = of_int f + 1 / 2"
  shows "round_double x = of_int (if even f then f else f + 1) / 2 ^ p"
  using round_double_scaled [OF exponent_eq [OF assms(1-3)]] round_even_tie [OF assms(4)]
  by simp

lemma round_double_error:
  assumes "\<bar>x\<bar> < 2 ^ Suc j"
  shows "\<bar>round_double x - x\<bar> \<le> 2 powi (int j - 53)"
proof -
  define q :: real where "q = 2 powi (exponent x - 52)"
  have q: "0 < q" by (simp add: q_def)
  have "round_double x - x = (of_int (round_even (x / q)) - x / q) * q"
    using q by (simp add: round_double_def Let_def q_def [symmetric] field_simps)
  then have "\<bar>round_double x - x\<bar> = \<bar>of_int (round_even (x / q)) - x / q\<bar> * q"
    using q by (simp add: abs_mult)
  also have "\<dots> \<le> (1 / 2) * q"
    using round_even_error [of "x / q"] q by (intro mult_right_mono) simp_all
  also have "\<dots> = 2 powi (exponent x - 53)"
    by (simp add: q_def power_int_diff)
  also have "\<dots> \<le> 2 powi (int j - 53)"
    using exponent_le [OF assms] by (intro power_int_increasing) simp_all
  finally show ?thesis .
qed

lemma fl_finite:
  assumes "\<bar>x\<bar> < 2 ^ Suc j" and "j \<le> 1022"
  shows "fl x = Num (round_double x)"
proof -
  have "\<bar>round_double x - x\<bar> \<le> 2 powi (int j - 53)"
    by (rule round_double_error [OF assms(1)])
  also have "\<dots> \<le> 2 powi (int j)"
    by (intro power_int_increasing) simp_all
  also have "\<dots> = 2 ^ j"
    by simp
  finally have "\<bar>round_double x\<bar> < 2 ^ Suc j + 2 ^ j"
    using assms(1) by linarith
  also have "\<dots> \<le> 2 ^ Suc (Suc j)"
    by simp
  also have "\<dots> \<le> (2::real) ^ 1024"
    using assms(2) by (intro power_increasing) simp_all
  finally have "\<bar>round_double x\<bar> < 2 ^ 1024" .
  then have "\<not> 2 ^ 1024 \<le> round_double x" and "\<not> round_double x \<le> - (2 ^ 1024)"
    by linarith+
  then show ?thesis
    by (simp only: fl_def Let_def if_False)
qed

lemma rd_0_9: "round_double 0.9 = 8106479329266893 / 2 ^ 53"
  using round_double_nearest [of "0.9" 53 8106479329266893] by simp

lemma rd_0_95: "round_double 0.95 = 4278419646001971 / 2 ^ 52"
  using round_double_nearest [of "0.95" 53 8556839292003942] by simp

lemma rd_0_8: "round_double 0.8 = 3602879701896397 / 2 ^ 52"
  using round_double_nearest [of "0.8" 53 7205759403792794] by simp


lemma fl_nearest:
  assumes "2 ^ 52 \<le> \<bar>x\<bar> * 2 ^ p" and "\<bar>x\<bar> * 2 ^ p < 2 ^ 53" and "p < 1074"
    and "\<bar>x * 2 ^ p - of_int m\<bar> < 1 / 2"
  shows "fl x = Num (of_int m / 2 ^ p)"
proof -
  have "\<bar>x\<bar> * 1 \<le> \<bar>x\<bar> * 2 ^ p"
    by (intro mult_left_mono) simp_all
  then have "\<bar>x\<bar> < 2 ^ Suc 52"
    using assms(2) by simp
  then have "fl x = Num (round_double x)"
    by (rule fl_finite) simp
  then show ?thesis
    by (simp only: round_double_nearest [OF assms])
qed

lemma fl_tie:
  assumes "2 ^ 52 \<le> \<bar>x\<bar> * 2 ^ p" and "\<bar>x\<bar> * 2 ^ p < 2 ^ 53" and "p < 1074"
    and "x * 2 ^ p = of_int f + 1 / 2"
  shows "fl x = Num (of_int (if even f then f else f + 1) / 2 ^ p)"
proof -
  have "\<bar>x\<bar> * 1 \<le> \<bar>x\<bar> * 2 ^ p"
    by (intro mult_left_mono) simp_all
  then have "\<bar>x\<bar> < 2 ^ Suc 52"
    using assms(2) by simp
  then have "fl x = Num (round_double x)"
    by (rule fl_finite) simp
  then show ?thesis
    by (simp only: round_double_tie [OF assms])
qed

lemma rd_0_85: "round_double 0.85 = 7656119366529843 / 2 ^ 53"
  using round_double_nearest [of "0.85" 53 7656119366529843] by simp

lemma rd_0_8500000000000001: "round_double 0.8500000000000001 = 7656119366529844 / 2 ^ 53"
  using round_double_nearest [of "0.8500000000000001" 53 7656119366529844] by simp

lemma avg_scenario_A:
  "divide_by_length
     (num_add (num_add (Num 0) (Num (round_double 0.9))) (Num (round_double 0.8))) 2 =
   Num (round_double 0.8500000000000001)"
proof -
  have a: "num_add (Num 0) (Num (round_double 0.9)) = Num (8106479329266893 / 2 ^ 53)"
    using fl_nearest [of "8106479329266893 / 2 ^ 53" 53 8106479329266893]
    unfolding rd_0_9 by simp
  have b: "num_add (Num (8106479329266893 / 2 ^ 53)) (Num (round_double 0.8)) =
      Num (7656119366529844 / 2 ^ 52)"
    using fl_tie [of "8106479329266893 / 2 ^ 53 + 3602879701896397 / 2 ^ 52" 52 7656119366529843]
    unfolding rd_0_8 by simp
  have c: "divide_by_length (Num (7656119366529844 / 2 ^ 52)) 2 = Num (7656119366529844 / 2 ^ 53)"
    using fl_nearest [of "7656119366529844 / 2 ^ 52 / 2" 53 7656119366529844]
    by (simp add: divide_by_length_def)
  show ?thesis
    unfolding a b c rd_0_8500000000000001 ..
qed

lemma avg_scenario_B:
  "divide_by_length (num_add (Num 0) (Num (round_double 0.95))) 1 = Num (round_double 0.95)"
proof -
  have a: "num_add (Num 0) (Num (round_double 0.95)) = Num (round_double 0.95)"
    using fl_nearest [of "8556839292003942 / 2 ^ 53" 53 8556839292003942]
    unfolding rd_0_95 by simp
  have c: "divide_by_length (Num (round_double 0.95)) 1 = Num (round_double 0.95)"
    using fl_nearest [of "8556839292003942 / 2 ^ 53" 53 8556839292003942]
    unfolding rd_0_95 by (simp add: divide_by_length_def)
  show ?thesis
    unfolding a c ..
qed


lemma fl_error_128:
  assumes "\<bar>x\<bar> < 128"
  shows "\<exists>r. fl x = Num r \<and> \<bar>r - x\<bar> \<le> 1 / 2 ^ 47"
proof -
  have lt: "\<bar>x\<bar> < 2 ^ Suc 6" using assms by simp
  have "fl x = Num (round_double x)"
    by (rule fl_finite [OF lt]) simp
  moreover have "\<bar>round_double x - x\<bar> \<le> 2 powi (int 6 - 53)"
    by (rule round_double_error [OF lt])
  moreover have "(2::real) powi (int 6 - 53) = 1 / 2 ^ 47"
    by (simp add: power_int_def power_one_over)
  ultimately show ?thesis by simp
qed

lemma fl_error_2:
  assumes "\<bar>x\<bar> < 2"
  shows "\<exists>r. fl x = Num r \<and> \<bar>r - x\<bar> \<le> 1 / 2 ^ 53"
proof -
  have lt: "\<bar>x\<bar> < 2 ^ Suc 0" using assms by simp
  have "fl x = Num (round_double x)"
    by (rule fl_finite [OF lt]) simp
  moreover have "\<bar>round_double x - x\<bar> \<le> 2 powi (int 0 - 53)"
    by (rule round_double_error [OF lt])
  moreover have "(2::real) powi (int 0 - 53) = 1 / 2 ^ 53"
    by (simp add: power_int_def power_one_over)
  ultimately show ?thesis by simp
qed

lemma sum_list_unit_bounds:
  fixes f :: "'a \<Rightarrow> real"
  assumes "\<And>t. t \<in> set ts \<Longrightarrow> 0 \<le> f t \<and> f t \<le> 1"
  shows "0 \<le> sum_list (map f ts) \<and> sum_list (map f ts) \<le> real (length ts)"
  using assms
proof (induction ts)
  case Nil
  then show ?case by simp
next
  case (Cons t ts)
  have "0 \<le> f t \<and> f t \<le> 1" using Cons.prems by simp
  moreover have "0 \<le> sum_list (map f ts) \<and> sum_list (map f ts) \<le> real (length ts)"
    using Cons by simp
  ultimately show ?case by simp
qed

lemma rounded_sum_error:
  fixes f :: "'a \<Rightarrow> real"
  assumes err: "\<And>x. \<bar>x\<bar> < b \<Longrightarrow> \<exists>r. fl x = Num r \<and> \<bar>r - x\<bar> \<le> d" and d: "0 \<le> d"
    and unit: "\<And>t. t \<in> set ts \<Longrightarrow> 0 \<le> f t \<and> f t \<le> 1"
    and room: "\<bar>a\<bar> + real (length ts) * (1 + d) < b"
  shows "\<exists>s. foldl (\<lambda>sum t. num_add sum (Num (f t))) (Num a) ts = Num s \<and>
             \<bar>s - (a + sum_list (map f ts))\<bar> \<le> real (length ts) * d"
  using unit room
proof (induction ts arbitrary: a)
  case Nil
  then show ?case by simp
next
  case (Cons t ts)
  define n where "n = real (length ts)"
  have n: "0 \<le> n" by (simp add: n_def)
  have ft: "0 \<le> f t" "f t \<le> 1" using Cons.prems(1) by simp_all
  have room: "\<bar>a\<bar> + (n + 1) * (1 + d) < b"
    using Cons.prems(2) by (simp add: n_def add.commute)
  have nd: "0 \<le> n * (1 + d)"
    using d n by simp
  have "(n + 1) * (1 + d) = n * (1 + d) + 1 + d"
    by (simp add: algebra_simps)
  then have room2: "\<bar>a\<bar> + n * (1 + d) + 1 + d < b"
    using room by simp
  then have "\<bar>a + f t\<bar> < b"
    using ft d nd by linarith
  then obtain a' where a': "fl (a + f t) = Num a'" "\<bar>a' - (a + f t)\<bar> \<le> d"
    using err by blast
  have "\<bar>a'\<bar> \<le> \<bar>a\<bar> + 1 + d"
    using a'(2) ft by linarith
  then have room': "\<bar>a'\<bar> + real (length ts) * (1 + d) < b"
    using room2 by (simp add: n_def)
  have unit': "\<And>u. u \<in> set ts \<Longrightarrow> 0 \<le> f u \<and> f u \<le> 1"
    using Cons.prems(1) by simp
  obtain s where s: "foldl (\<lambda>sum t. num_add sum (Num (f t))) (Num a') ts = Num s"
      "\<bar>s - (a' + sum_list (map f ts))\<bar> \<le> n * d"
    using Cons.IH [OF unit' room'] by (auto simp: n_def)
  have "\<bar>s - (a + f t + sum_list (map f ts))\<bar> \<le> n * d + d"
    using s(2) a'(2) by linarith
  moreover have "real (length (t # ts)) * d = n * d + d"
    by (simp add: n_def algebra_simps)
  ultimately have "\<bar>s - (a + sum_list (map f (t # ts)))\<bar> \<le> real (length (t # ts)) * d"
    by (simp add: add.assoc)
  moreover have "foldl (\<lambda>sum t. num_add sum (Num (f t))) (Num a) (t # ts) = Num s"
    using s(1) a'(1) by simp
  ultimately show ?case by blast
qed

lemma rounded_mean_error:
  fixes f :: "'a \<Rightarrow> real"
  assumes unit: "\<And>t. t \<in> set ts \<Longrightarrow> 0 \<le> f t \<and> f t \<le> 1"
    and "ts \<noteq> []" and "length ts \<le> 100"
  shows "\<exists>m. divide_by_length (foldl (\<lambda>sum t. num_add sum (Num (f t))) (Num 0) ts) (length ts) = Num m \<and>
             \<bar>m - sum_list (map f ts) / real (length ts)\<bar> \<le> 1 / 2 ^ 46"
proof -
  define n where "n = real (length ts)"
  define d :: real where "d = 1 / 2 ^ 47"
  define total where "total = sum_list (map f ts)"
  have n: "1 \<le> n" "n \<le> 100"
    using assms(2,3) by (simp_all add: n_def Suc_le_eq)
  have d: "0 \<le> d" "d \<le> 1 / 4" by (simp_all add: d_def)
  have err: "\<And>x. \<bar>x\<bar> < 128 \<Longrightarrow> \<exists>r. fl x = Num r \<and> \<bar>r - x\<bar> \<le> d"
    unfolding d_def by (rule fl_error_128)
  have "n * (1 + d) \<le> 100 * (1 + 1 / 4)"
    using n d by (intro mult_mono) simp_all
  then have room: "\<bar>0::real\<bar> + real (length ts) * (1 + d) < 128"
    by (simp add: n_def)
  obtain s where s: "foldl (\<lambda>sum t. num_add sum (Num (f t))) (Num 0) ts = Num s"
      "\<bar>s - total\<bar> \<le> n * d"
    using rounded_sum_error [where b = 128 and d = d and ts = ts and f = f and a = 0,
        OF err d(1) unit room]
    by (auto simp: n_def total_def)
  have tot: "0 \<le> total" "total \<le> n"
    using sum_list_unit_bounds [where ts = ts and f = f, OF unit]
    by (simp_all add: total_def n_def)
  have quot: "\<bar>s / n - total / n\<bar> \<le> d"
  proof -
    have "s / n - total / n = (s - total) / n"
      by (simp add: diff_divide_distrib)
    then have "\<bar>s / n - total / n\<bar> = \<bar>s - total\<bar> / n"
      using n by simp
    also have "\<dots> \<le> (n * d) / n"
      using s(2) n by (intro divide_right_mono) simp_all
    also have "\<dots> = d"
      using n by simp
    finally show ?thesis .
  qed
  have "total / n \<le> 1" "0 \<le> total / n"
    using tot n by simp_all
  then have "\<bar>s / n\<bar> < 2"
    using quot d by linarith
  then obtain m where m: "fl (s / n) = Num m" "\<bar>m - s / n\<bar> \<le> 1 / 2 ^ 53"
    using fl_error_2 by blast
  have "\<bar>m - total / n\<bar> \<le> 1 / 2 ^ 53 + d"
    using m(2) quot by linarith
  also have "\<dots> \<le> 1 / 2 ^ 46"
    by (simp add: d_def)
  finally have "\<bar>m - total / n\<bar> \<le> 1 / 2 ^ 46" .
  moreover have "divide_by_length (foldl (\<lambda>sum t. num_add sum (Num (f t))) (Num 0) ts) (length ts) = Num m"
    using m(1) assms(2) by (simp add: s(1) divide_by_length_def n_def)
  ultimately show ?thesis
    unfolding total_def n_def by blast
qed

section \<open>Ranking and grouping: scores and the order of the groups\<close>

lemma foldl_max_Max:
  fixes x :: real
  shows "foldl max x xs = Max (set (x # xs))"
proof (induction xs arbitrary: x)
  case Nil
  then show ?case by simp
next
  case (Cons y ys)
  have "foldl max x (y # ys) = Max (set (max x y # ys))"
    using Cons [of "max x y"] by simp
  also have "\<dots> = Max (set (x # y # ys))"
    by (cases "ys = []") (simp_all add: max.assoc)
  finally show ?case .
qed

lemma Math_max_nonempty:
  assumes "xs \<noteq> []"
  shows "Math_max xs = Num (Max (set xs))"
proof -
  obtain y ys where xs: "xs = y # ys"
    using assms by (cases xs) auto
  show ?thesis
    unfolding xs Math_max.simps foldl_max_Max ..
qed

lemma group_tools_score_server:
  "group_tools (score_server e) = sort_key (\<lambda>t. - tool_similarity t) (entry_tools e)"
  by (simp add: score_server_def Let_def Array_sort_by_difference)

lemma group_serverName_score_server:
  "group_serverName (score_server e) = entry_serverName e"
  by (simp add: score_server_def Let_def)

lemma maxSimilarity_score_server:
  assumes "entry_tools e \<noteq> []"
  shows "maxSimilarity (score_server e) =
           Num (Max (tool_similarity ` set (group_tools (score_server e))))"
proof -
  have "length (group_tools (score_server e)) = length (entry_tools e)"
    by (simp add: group_tools_score_server)
  then have "map tool_similarity (group_tools (score_server e)) \<noteq> []"
    using assms by auto
  then have "Math_max (map tool_similarity (group_tools (score_server e))) =
      Num (Max (set (map tool_similarity (group_tools (score_server e)))))"
    by (rule Math_max_nonempty)
  then show ?thesis
    by (simp add: score_server_def Let_def)
qed

lemma avgSimilarity_score_server:
  "avgSimilarity (score_server e) =
     divide_by_length
       (foldl (\<lambda>sum t. num_add sum (Num (tool_similarity t))) (Num 0) (group_tools (score_server e)))
       (length (group_tools (score_server e)))"
  by (simp add: score_server_def Let_def)

lemma entry_in_serverMap_nonempty:
  assumes "p \<in> set (serverMap rs)"
  shows "entry_tools (snd p) \<noteq> []" and "entry_serverName (snd p) = fst p"
    and "fst p \<in> serverName ` set rs"
    and "entry_tools (snd p) = map tool_of (filter (\<lambda>r. serverName r = fst p) rs)"
proof -
  obtain k e where p: "p = (k, e)" by (cases p)
  with assms have k: "k \<in> serverName ` set rs"
    and e: "e = \<lparr>entry_serverName = k,
                  entry_tools = map tool_of (filter (\<lambda>r. serverName r = k) rs)\<rparr>"
    by (simp_all add: in_serverMap_iff)
  from k obtain r where "r \<in> set rs" "serverName r = k" by auto
  then have "filter (\<lambda>r. serverName r = k) rs \<noteq> []"
    by (auto simp: filter_empty_conv)
  then show "entry_tools (snd p) \<noteq> []" by (simp add: p e)
  show "entry_serverName (snd p) = fst p" by (simp add: p e)
  show "fst p \<in> serverName ` set rs" using k by (simp add: p)
  show "entry_tools (snd p) = map tool_of (filter (\<lambda>r. serverName r = fst p) rs)"
    by (simp add: p e)
qed

lemma servers_sort_key:
  "servers rs =
     sort_key (\<lambda>g. - Max (tool_similarity ` set (group_tools g)))
       (map score_server (map snd (serverMap rs)))"
  unfolding servers_def
proof (rule Array_sort_sort_key)
  fix x y
  assume "x \<in> set (map score_server (map snd (serverMap rs)))"
    and "y \<in> set (map score_server (map snd (serverMap rs)))"
  then obtain p q where p: "p \<in> set (serverMap rs)" "x = score_server (snd p)"
    and q: "q \<in> set (serverMap rs)" "y = score_server (snd q)"
    by auto
  have "maxSimilarity x = Num (Max (tool_similarity ` set (group_tools x)))"
    using p entry_in_serverMap_nonempty(1) [of p rs] by (simp add: maxSimilarity_score_server)
  moreover have "maxSimilarity y = Num (Max (tool_similarity ` set (group_tools y)))"
    using q entry_in_serverMap_nonempty(1) [of q rs] by (simp add: maxSimilarity_score_server)
  ultimately show "positive (num_sub (maxSimilarity y) (maxSimilarity x)) =
      (Max (tool_similarity ` set (group_tools x)) < Max (tool_similarity ` set (group_tools y)))"
    by simp
qed

lemma set_servers:
  "set (servers rs) = (\<lambda>p. score_server (snd p)) ` set (serverMap rs)"
  by (auto simp: servers_def set_Array_sort)

lemma mset_servers:
  "mset (servers rs) = mset (map score_server (map snd (serverMap rs)))"
  by (simp add: servers_def mset_Array_sort)

lemma sum_list_mset_cong:
  fixes f :: "'a \<Rightarrow> nat"
  assumes "mset xs = mset ys"
  shows "sum_list (map f xs) = sum_list (map f ys)"
proof -
  have "sum_list (map f xs) = sum_mset (image_mset f (mset xs))"
    by (metis mset_map sum_mset_sum_list)
  also have "\<dots> = sum_mset (image_mset f (mset ys))"
    by (simp add: assms)
  also have "\<dots> = sum_list (map f ys)"
    by (metis mset_map sum_mset_sum_list)
  finally show ?thesis .
qed

lemma sum_servers:
  "(\<Sum>g\<leftarrow>servers rs. length (group_tools g)) = length rs"
proof -
  have "(\<Sum>g\<leftarrow>servers rs. length (group_tools g)) =
      (\<Sum>g\<leftarrow>map score_server (map snd (serverMap rs)). length (group_tools g))"
    by (rule sum_list_mset_cong) (rule mset_servers)
  also have "\<dots> = (\<Sum>p\<leftarrow>serverMap rs. length (entry_tools (snd p)))"
    by (simp add: comp_def group_tools_score_server)
  also have "\<dots> = length rs"
    by (rule sum_serverMap)
  finally show ?thesis .
qed

lemma names_of_scored_serverMap:
  "map group_serverName (map score_server (map snd (serverMap rs))) = map fst (serverMap rs)"
proof -
  have "map (\<lambda>p. group_serverName (score_server (snd p))) (serverMap rs) =
      map fst (serverMap rs)"
    by (rule map_cong [OF refl])
       (simp add: group_serverName_score_server entry_in_serverMap_nonempty(2))
  then show ?thesis
    by (simp add: comp_def)
qed

lemma distinct_servers_names:
  "distinct (map group_serverName (servers rs))"
proof -
  have "mset (map group_serverName (servers rs)) =
      mset (map group_serverName (map score_server (map snd (serverMap rs))))"
    unfolding mset_map mset_servers ..
  then have "mset (map group_serverName (servers rs)) = mset (map fst (serverMap rs))"
    by (simp only: names_of_scored_serverMap)
  then show ?thesis
    using distinct_serverMap [of rs] by (metis mset_eq_imp_distinct_iff)
qed

section \<open>Ranking and grouping: the response\<close>

lemma sortedResults_sort_key:
  "sortedResults rs = sort_key (\<lambda>c. - similarity c) rs"
  by (simp add: sortedResults_def Array_sort_by_difference)

lemma sorted_sortedResults:
  "sorted_wrt (\<lambda>a b. similarity b \<le> similarity a) (sortedResults rs)"
  by (simp add: sortedResults_sort_key sorted_desc_sort_key)

lemma sortedResults_idem:
  "sortedResults (sortedResults rs) = sortedResults rs"
  using sorted_sortedResults [of rs]
  by (simp add: sortedResults_sort_key [of "sortedResults rs"] sort_key_desc_id)

lemma tool_similarity_tool_of: "tool_similarity (tool_of r) = similarity r"
  by (simp add: tool_of_def)

lemma tool_serverName_tool_of: "tool_serverName (tool_of r) = serverName r"
  by (simp add: tool_of_def)

lemma group_of_sorted:
  assumes "sorted_wrt (\<lambda>a b. similarity b \<le> similarity a) rs"
    and "g \<in> set (servers rs)"
  shows "group_tools g = map tool_of (filter (\<lambda>r. serverName r = group_serverName g) rs)"
    and "group_serverName g \<in> serverName ` set rs"
    and "group_tools g \<noteq> []"
    and "maxSimilarity g = Num (Max (tool_similarity ` set (group_tools g)))"
    and "avgSimilarity g =
           divide_by_length
             (foldl (\<lambda>sum t. num_add sum (Num (tool_similarity t))) (Num 0) (group_tools g))
             (length (group_tools g))"
proof -
  from assms(2) obtain p where p: "p \<in> set (serverMap rs)" and g: "g = score_server (snd p)"
    by (auto simp: set_servers)
  have name: "group_serverName g = fst p"
    by (simp add: g group_serverName_score_server entry_in_serverMap_nonempty(2) [OF p])
  have tools: "entry_tools (snd p) = map tool_of (filter (\<lambda>r. serverName r = fst p) rs)"
    by (rule entry_in_serverMap_nonempty(4) [OF p])
  have "sorted_wrt (\<lambda>a b. similarity b \<le> similarity a) (filter (\<lambda>r. serverName r = fst p) rs)"
    using assms(1) by (rule sorted_wrt_filter)
  then have "sorted_wrt (\<lambda>a b. tool_similarity b \<le> tool_similarity a) (entry_tools (snd p))"
    by (simp add: tools sorted_wrt_map tool_similarity_tool_of)
  then have "sort_key (\<lambda>t. - tool_similarity t) (entry_tools (snd p)) = entry_tools (snd p)"
    by (rule sort_key_desc_id)
  then have gt: "group_tools g = entry_tools (snd p)"
    by (simp add: g group_tools_score_server)
  show "group_tools g = map tool_of (filter (\<lambda>r. serverName r = group_serverName g) rs)"
    by (simp add: gt tools name)
  show "group_serverName g \<in> serverName ` set rs"
    using entry_in_serverMap_nonempty(3) [OF p] by (simp add: name)
  show "group_tools g \<noteq> []"
    using entry_in_serverMap_nonempty(1) [OF p] by (simp add: gt)
  show "maxSimilarity g = Num (Max (tool_similarity ` set (group_tools g)))"
    unfolding g by (rule maxSimilarity_score_server) (rule entry_in_serverMap_nonempty(1) [OF p])
  show "avgSimilarity g =
           divide_by_length
             (foldl (\<lambda>sum t. num_add sum (Num (tool_similarity t))) (Num 0) (group_tools g))
             (length (group_tools g))"
    unfolding g by (rule avgSimilarity_score_server)
qed

lemma group_for_every_result:
  assumes "r \<in> set rs"
  shows "\<exists>g\<in>set (servers rs). group_serverName g = serverName r"
proof -
  have "(serverName r,
         \<lparr>entry_serverName = serverName r,
          entry_tools = map tool_of (filter (\<lambda>c. serverName c = serverName r) rs)\<rparr>)
        \<in> set (serverMap rs)"
    using assms by (simp add: in_serverMap_iff)
  then have "score_server \<lparr>entry_serverName = serverName r,
          entry_tools = map tool_of (filter (\<lambda>c. serverName c = serverName r) rs)\<rparr>
        \<in> set (servers rs)"
    by (force simp: set_servers)
  then show ?thesis
    by (rule rev_bexI) (simp add: group_serverName_score_server)
qed

lemma sorted_servers:
  "sorted_wrt (\<lambda>g h. Max (tool_similarity ` set (group_tools h))
                      \<le> Max (tool_similarity ` set (group_tools g))) (servers rs)"
  by (simp add: servers_sort_key sorted_desc_sort_key)

lemma data_tools_eq: "data_tools (search_response_data q t rs) = sortedResults rs"
  by (simp add: search_response_data_def Let_def)

lemma data_servers_eq: "data_servers (search_response_data q t rs) = servers (sortedResults rs)"
  by (simp add: search_response_data_def Let_def)

lemma scenario_response:
  assumes "c < a" and "a < b"
  shows "search_response_data q t
     [\<lparr>serverName = ''A'', toolName = ''x'', description = d1, inputSchema = i1, similarity = a\<rparr>,
      \<lparr>serverName = ''B'', toolName = ''y'', description = d2, inputSchema = i2, similarity = b\<rparr>,
      \<lparr>serverName = ''A'', toolName = ''z'', description = d3, inputSchema = i3, similarity = c\<rparr>] =
   \<lparr>data_tools =
      [\<lparr>serverName = ''B'', toolName = ''y'', description = d2, inputSchema = i2, similarity = b\<rparr>,
       \<lparr>serverName = ''A'', toolName = ''x'', description = d1, inputSchema = i1, similarity = a\<rparr>,
       \<lparr>serverName = ''A'', toolName = ''z'', description = d3, inputSchema = i3, similarity = c\<rparr>],
    data_servers =
      [\<lparr>group_serverName = ''B'',
        group_tools =
          [\<lparr>name = ''y'', tool_description = d2, tool_inputSchema = i2, tool_similarity = b,
            tool_serverName = ''B''\<rparr>],
        maxSimilarity = Num b,
        avgSimilarity = divide_by_length (num_add (Num 0) (Num b)) 1\<rparr>,
       \<lparr>group_serverName = ''A'',
        group_tools =
          [\<lparr>name = ''x'', tool_description = d1, tool_inputSchema = i1, tool_similarity = a,
            tool_serverName = ''A''\<rparr>,
           \<lparr>name = ''z'', tool_description = d3, tool_inputSchema = i3, tool_similarity = c,
            tool_serverName = ''A''\<rparr>],
        maxSimilarity = Num a,
        avgSimilarity = divide_by_length (num_add (num_add (Num 0) (Num a)) (Num c)) 2\<rparr>],
    data_metadata =
      \<lparr>md_query = q, md_threshold = t, totalResults = 3, serverCount = 2,
       guideline = ''Found relevant tools. If these tools don't match exactly what you need, try another search with more specific keywords.'',
       nextSteps = ''Use the found tools in your servers.''\<rparr>\<rparr>"
  using assms
  by (simp add: search_response_data_def sortedResults_def servers_def
      serverMap_def Array_sort_def add_result_def Map_has_def Map_set_def push_tool_def
      tool_of_def score_server_def Let_def numeral_2_eq_2 numeral_3_eq_3 del: num_add.simps)

lemma equal_scores_response:
  "data_servers (search_response_data q t
     [\<lparr>serverName = ''A'', toolName = ''a'', description = d1, inputSchema = i1, similarity = s\<rparr>,
      \<lparr>serverName = ''A'', toolName = ''b'', description = d2, inputSchema = i2, similarity = s\<rparr>,
      \<lparr>serverName = ''A'', toolName = ''c'', description = d3, inputSchema = i3, similarity = s\<rparr>]) =
      [\<lparr>group_serverName = ''A'',
        group_tools =
          [\<lparr>name = ''a'', tool_description = d1, tool_inputSchema = i1, tool_similarity = s,
            tool_serverName = ''A''\<rparr>,
           \<lparr>name = ''b'', tool_description = d2, tool_inputSchema = i2, tool_similarity = s,
            tool_serverName = ''A''\<rparr>,
           \<lparr>name = ''c'', tool_description = d3, tool_inputSchema = i3, tool_similarity = s,
            tool_serverName = ''A''\<rparr>],
        maxSimilarity = Num s,
        avgSimilarity =
          divide_by_length (num_add (num_add (num_add (Num 0) (Num s)) (Num s)) (Num s)) 3\<rparr>]"
  by (simp add: search_response_data_def sortedResults_def servers_def
      serverMap_def Array_sort_def add_result_def Map_has_def Map_set_def push_tool_def
      tool_of_def score_server_def Let_def numeral_2_eq_2 numeral_3_eq_3 del: num_add.simps)

lemma rd_0_1: "round_double 0.1 = 7205759403792794 / 2 ^ 56"
  using round_double_nearest [of "0.1" 56 7205759403792794] by simp

lemma rd_0_10000000000000002: "round_double 0.10000000000000002 = 7205759403792795 / 2 ^ 56"
  using round_double_nearest [of "0.10000000000000002" 56 7205759403792795] by simp

lemma avg_three_tenths:
  "divide_by_length
     (num_add (num_add (num_add (Num 0) (Num (round_double 0.1))) (Num (round_double 0.1)))
        (Num (round_double 0.1))) 3 =
   Num (round_double 0.10000000000000002)"
proof -
  have a: "num_add (Num 0) (Num (round_double 0.1)) = Num (7205759403792794 / 2 ^ 56)"
    using fl_nearest [of "7205759403792794 / 2 ^ 56" 56 7205759403792794]
    unfolding rd_0_1 by simp
  have b: "num_add (Num (7205759403792794 / 2 ^ 56)) (Num (round_double 0.1)) =
      Num (7205759403792794 / 2 ^ 55)"
    using fl_nearest [of "7205759403792794 / 2 ^ 56 + 7205759403792794 / 2 ^ 56" 55 7205759403792794]
    unfolding rd_0_1 by simp
  have c: "num_add (Num (7205759403792794 / 2 ^ 55)) (Num (round_double 0.1)) =
      Num (5404319552844596 / 2 ^ 54)"
    using fl_tie [of "7205759403792794 / 2 ^ 55 + 7205759403792794 / 2 ^ 56" 54 5404319552844595]
    unfolding rd_0_1 by simp
  have d: "divide_by_length (Num (5404319552844596 / 2 ^ 54)) 3 = Num (7205759403792795 / 2 ^ 56)"
    using fl_nearest [of "5404319552844596 / 2 ^ 54 / 3" 56 7205759403792795]
    by (simp add: divide_by_length_def)
  show ?thesis
    unfolding a b c d rd_0_10000000000000002 ..
qed

lemma scenario_order: "round_double 0.8 < round_double 0.9" "round_double 0.9 < round_double 0.95"
  unfolding rd_0_8 rd_0_9 rd_0_95 by simp_all

lemma sample_response:
  "search_response_data q t sample_candidates =
   \<lparr>data_tools =
      [\<lparr>serverName = ''B'', toolName = ''y'', description = [], inputSchema = JObj [],
        similarity = round_double 0.95\<rparr>,
       \<lparr>serverName = ''A'', toolName = ''x'', description = [], inputSchema = JObj [],
        similarity = round_double 0.9\<rparr>,
       \<lparr>serverName = ''A'', toolName = ''z'', description = [], inputSchema = JObj [],
        similarity = round_double 0.8\<rparr>],
    data_servers =
      [\<lparr>group_serverName = ''B'',
        group_tools =
          [\<lparr>name = ''y'', tool_description = [], tool_inputSchema = JObj [],
            tool_similarity = round_double 0.95, tool_serverName = ''B''\<rparr>],
        maxSimilarity = Num (round_double 0.95), avgSimilarity = Num (round_double 0.95)\<rparr>,
       \<lparr>group_serverName = ''A'',
        group_tools =
          [\<lparr>name = ''x'', tool_description = [], tool_inputSchema = JObj [],
            tool_similarity = round_double 0.9, tool_serverName = ''A''\<rparr>,
           \<lparr>name = ''z'', tool_description = [], tool_inputSchema = JObj [],
            tool_similarity = round_double 0.8, tool_serverName = ''A''\<rparr>],
        maxSimilarity = Num (round_double 0.9),
        avgSimilarity = Num (round_double 0.8500000000000001)\<rparr>],
    data_metadata =
      \<lparr>md_query = q, md_threshold = t, totalResults = 3, serverCount = 2,
       guideline = ''Found relevant tools. If these tools don't match exactly what you need, try another search with more specific keywords.'',
       nextSteps = ''Use the found tools in your servers.''\<rparr>\<rparr>"
  unfolding sample_candidates_def scenario_response [OF scenario_order]
    avg_scenario_A avg_scenario_B ..

lemma tenth_response:
  "data_servers (search_response_data q t tenth_candidates) =
      [\<lparr>group_serverName = ''A'',
        group_tools =
          [\<lparr>name = ''a'', tool_description = [], tool_inputSchema = JObj [],
            tool_similarity = round_double 0.1, tool_serverName = ''A''\<rparr>,
           \<lparr>name = ''b'', tool_description = [], tool_inputSchema = JObj [],
            tool_similarity = round_double 0.1, tool_serverName = ''A''\<rparr>,
           \<lparr>name = ''c'', tool_description = [], tool_inputSchema = JObj [],
            tool_similarity = round_double 0.1, tool_serverName = ''A''\<rparr>],
        maxSimilarity = Num (round_double 0.1),
        avgSimilarity = Num (round_double 0.10000000000000002)\<rparr>]"
  unfolding tenth_candidates_def equal_scores_response avg_three_tenths ..

lemma group_within_unit:
  assumes "g \<in> set (servers (sortedResults rs))"
    and "length rs \<le> 100" and "\<And>r. r \<in> set rs \<Longrightarrow> 0 \<le> similarity r \<and> similarity r \<le> 1"
  shows "\<exists>m. avgSimilarity g = Num m \<and>
           \<bar>m - sum_list (map tool_similarity (group_tools g)) / real (length (group_tools g))\<bar>
             \<le> 1 / 2 ^ 46"
proof -
  note facts = group_of_sorted [OF sorted_sortedResults assms(1)]
  have set: "set (sortedResults rs) = set rs"
    by (simp add: sortedResults_def set_Array_sort)
  have unit: "0 \<le> tool_similarity u \<and> tool_similarity u \<le> 1" if "u \<in> set (group_tools g)" for u
  proof -
    from that obtain r where "r \<in> set rs" and "u = tool_of r"
      unfolding facts(1) using set by auto
    then show ?thesis
      using assms(3) by (simp add: tool_similarity_tool_of)
  qed
  have "length (group_tools g) \<le> length (sortedResults rs)"
    unfolding facts(1) by simp
  then have len: "length (group_tools g) \<le> 100"
    using assms(2) by (simp add: sortedResults_def length_Array_sort)
  show ?thesis
    unfolding facts(5)
    by (rule rounded_mean_error [where f = tool_similarity and ts = "group_tools g", OF unit facts(3) len])
qed

text \<open>
  C6. Grouping loses nothing and adds nothing: the sizes of the groups add up to the length
  of the sorted flat list (which is the length of the input), the groups have distinct
  server names, the tools of a group are the results of the flat list that carry the
  group's server name, in the order of the flat list, and every result of the flat list
  has the group of its server name.
\<close>

theorem C6_grouping_is_lossless:
  "(\<Sum>g\<leftarrow>data_servers (search_response_data q t rs). length (group_tools g)) =
     length (data_tools (search_response_data q t rs)) \<and>
   length (data_tools (search_response_data q t rs)) = length rs \<and>
   distinct (map group_serverName (data_servers (search_response_data q t rs))) \<and>
   (\<forall>g\<in>set (data_servers (search_response_data q t rs)).
      group_tools g =
        map tool_of (filter (\<lambda>r. serverName r = group_serverName g)
                       (data_tools (search_response_data q t rs)))) \<and>
   (\<forall>r\<in>set (data_tools (search_response_data q t rs)).
      \<exists>g\<in>set (data_servers (search_response_data q t rs)).
        group_serverName g = serverName r)"
  unfolding data_tools_eq data_servers_eq
proof (intro conjI ballI)
  show "(\<Sum>g\<leftarrow>servers (sortedResults rs). length (group_tools g)) = length (sortedResults rs)"
    by (rule sum_servers)
  show "length (sortedResults rs) = length rs"
    by (simp add: sortedResults_def length_Array_sort)
  show "distinct (map group_serverName (servers (sortedResults rs)))"
    by (rule distinct_servers_names)
next
  fix g assume "g \<in> set (servers (sortedResults rs))"
  then show "group_tools g =
      map tool_of (filter (\<lambda>r. serverName r = group_serverName g) (sortedResults rs))"
    by (rule group_of_sorted(1) [OF sorted_sortedResults])
next
  fix r assume "r \<in> set (sortedResults rs)"
  then show "\<exists>g\<in>set (servers (sortedResults rs)). group_serverName g = serverName r"
    by (rule group_for_every_result)
qed

theorem C6_grouping_witness:
  "(\<Sum>g\<leftarrow>data_servers (search_response_data ''sync'' 0.5 sample_candidates).
      length (group_tools g)) = 3 \<and>
   length (data_tools (search_response_data ''sync'' 0.5 sample_candidates)) = 3 \<and>
   map group_serverName (data_servers (search_response_data ''sync'' 0.5 sample_candidates)) =
     [''B'', ''A''] \<and>
   map name (group_tools (data_servers (search_response_data ''sync'' 0.5 sample_candidates) ! 1)) =
     [''x'', ''z'']"
  using C6_grouping_is_lossless [of "''sync''" "0.5" sample_candidates]
  by (simp add: sample_response tool_of_def)

text \<open>
  C7. The flat list is sorted by similarity, descending. In every group the tools are
  sorted by similarity, descending; the group is not empty, its \<^verbatim>\<open>maxSimilarity\<close> is the
  greatest similarity of its tools, and its \<^verbatim>\<open>avgSimilarity\<close> is the double that results
  from adding the similarities of its tools from left to right, starting from 0 and
  rounding after every addition, and dividing by their number. The groups are sorted by
  \<^verbatim>\<open>maxSimilarity\<close>, descending. For at most 100 candidates with similarities between 0
  and 1, \<^verbatim>\<open>avgSimilarity\<close> is within \<open>2\<^sup>-\<^sup>4\<^sup>6\<close> of the arithmetic mean of the group.
\<close>

theorem C7_ordering_invariants:
  "sorted_wrt (\<lambda>a b. similarity b \<le> similarity a) (data_tools (search_response_data q t rs)) \<and>
   (\<forall>g\<in>set (data_servers (search_response_data q t rs)).
      sorted_wrt (\<lambda>a b. tool_similarity b \<le> tool_similarity a) (group_tools g) \<and>
      group_tools g \<noteq> [] \<and>
      maxSimilarity g = Num (Max (tool_similarity ` set (group_tools g))) \<and>
      avgSimilarity g =
        divide_by_length
          (foldl (\<lambda>sum t. num_add sum (Num (tool_similarity t))) (Num 0) (group_tools g))
          (length (group_tools g))) \<and>
   sorted_wrt (\<lambda>g h. Max (tool_similarity ` set (group_tools h))
                      \<le> Max (tool_similarity ` set (group_tools g)))
     (data_servers (search_response_data q t rs)) \<and>
   (length rs \<le> 100 \<and> (\<forall>r\<in>set rs. 0 \<le> similarity r \<and> similarity r \<le> 1) \<longrightarrow>
      (\<forall>g\<in>set (data_servers (search_response_data q t rs)).
         \<exists>m. avgSimilarity g = Num m \<and>
             \<bar>m - sum_list (map tool_similarity (group_tools g)) / real (length (group_tools g))\<bar>
               \<le> 1 / 2 ^ 46))"
  unfolding data_tools_eq data_servers_eq
proof (intro conjI ballI impI)
  show "sorted_wrt (\<lambda>a b. similarity b \<le> similarity a) (sortedResults rs)"
    by (rule sorted_sortedResults)
  show "sorted_wrt (\<lambda>g h. Max (tool_similarity ` set (group_tools h))
                      \<le> Max (tool_similarity ` set (group_tools g)))
     (servers (sortedResults rs))"
    by (rule sorted_servers)
next
  fix g assume g: "g \<in> set (servers (sortedResults rs))"
  then obtain p where "g = score_server (snd p)"
    by (auto simp: set_servers)
  then show "sorted_wrt (\<lambda>a b. tool_similarity b \<le> tool_similarity a) (group_tools g)"
    by (simp add: group_tools_score_server sorted_desc_sort_key)
  show "group_tools g \<noteq> []"
    using g by (rule group_of_sorted(3) [OF sorted_sortedResults])
  show "maxSimilarity g = Num (Max (tool_similarity ` set (group_tools g)))"
    using g by (rule group_of_sorted(4) [OF sorted_sortedResults])
  show "avgSimilarity g =
        divide_by_length
          (foldl (\<lambda>sum t. num_add sum (Num (tool_similarity t))) (Num 0) (group_tools g))
          (length (group_tools g))"
    using g by (rule group_of_sorted(5) [OF sorted_sortedResults])
next
  fix g
  assume h: "length rs \<le> 100 \<and> (\<forall>r\<in>set rs. 0 \<le> similarity r \<and> similarity r \<le> 1)"
    and g: "g \<in> set (servers (sortedResults rs))"
  show "\<exists>m. avgSimilarity g = Num m \<and>
             \<bar>m - sum_list (map tool_similarity (group_tools g)) / real (length (group_tools g))\<bar>
               \<le> 1 / 2 ^ 46"
    using h by (intro group_within_unit [OF g]) simp_all
qed

theorem C7_ordering_witness:
  "sorted_wrt (\<lambda>a b. similarity b \<le> similarity a)
     (data_tools (search_response_data ''sync'' 0.5 sample_candidates)) \<and>
   map maxSimilarity (data_servers (search_response_data ''sync'' 0.5 sample_candidates)) =
     [Num (round_double 0.95), Num (round_double 0.9)] \<and>
   (\<exists>m. avgSimilarity (data_servers (search_response_data ''sync'' 0.5 sample_candidates) ! 1) =
           Num m \<and>
        \<bar>m - (round_double 0.9 + round_double 0.8) / 2\<bar> \<le> 1 / 2 ^ 46)"
proof -
  have len: "length sample_candidates \<le> 100"
    by (simp add: sample_candidates_def)
  have unit: "\<forall>r\<in>set sample_candidates. 0 \<le> similarity r \<and> similarity r \<le> 1"
    unfolding sample_candidates_def rd_0_9 rd_0_95 rd_0_8 by simp
  note inst = C7_ordering_invariants [of "''sync''" "0.5" sample_candidates]
  have a: "sorted_wrt (\<lambda>a b. similarity b \<le> similarity a)
     (data_tools (search_response_data ''sync'' 0.5 sample_candidates))"
    using inst by blast
  have b: "map maxSimilarity (data_servers (search_response_data ''sync'' 0.5 sample_candidates)) =
     [Num (round_double 0.95), Num (round_double 0.9)]"
    by (simp add: sample_response)
  have "\<forall>g\<in>set (data_servers (search_response_data ''sync'' 0.5 sample_candidates)).
         \<exists>m. avgSimilarity g = Num m \<and>
             \<bar>m - sum_list (map tool_similarity (group_tools g)) / real (length (group_tools g))\<bar>
               \<le> 1 / 2 ^ 46"
    using inst len unit by blast
  then have c: "\<exists>m. avgSimilarity (data_servers (search_response_data ''sync'' 0.5 sample_candidates) ! 1) =
           Num m \<and>
        \<bar>m - (round_double 0.9 + round_double 0.8) / 2\<bar> \<le> 1 / 2 ^ 46"
    unfolding sample_response by simp
  show ?thesis
    using a b c by blast
qed

text \<open>Three tools of similarity \<^verbatim>\<open>0.1\<close> in one group: the code computes the average
  \<^verbatim>\<open>0.10000000000000002\<close>, which is not the arithmetic mean \<^verbatim>\<open>0.1\<close> of the three and is
  above the maximum \<^verbatim>\<open>0.1\<close>.\<close>

theorem C7_average_counterexample:
  "map avgSimilarity (data_servers (search_response_data [] 0 tenth_candidates)) =
     [Num (round_double 0.10000000000000002)] \<and>
   map maxSimilarity (data_servers (search_response_data [] 0 tenth_candidates)) =
     [Num (round_double 0.1)] \<and>
   (round_double 0.1 + round_double 0.1 + round_double 0.1) / 3 = round_double 0.1 \<and>
   round_double 0.1 < round_double 0.10000000000000002"
proof -
  have "round_double 0.1 < round_double 0.10000000000000002"
    unfolding rd_0_1 rd_0_10000000000000002 by simp
  then show ?thesis
    by (simp add: tenth_response)
qed

text \<open>
  C9. The response data is a function of the sequence of candidates: two runs on the same
  sequence give the same tools, groups and metadata. The sort works in place, so a second
  run on the same array starts from the sorted order; it gives the same response data
  again. Ties are not broken by chance: candidates of equal similarity keep the order they
  have in the input.
\<close>

theorem C9_ranking_is_deterministic:
  "(rs' = rs \<longrightarrow>
      data_tools (search_response_data q t rs') = data_tools (search_response_data q t rs) \<and>
      data_servers (search_response_data q t rs') = data_servers (search_response_data q t rs) \<and>
      data_metadata (search_response_data q t rs') = data_metadata (search_response_data q t rs)) \<and>
   search_response_data q t (data_tools (search_response_data q t rs)) =
     search_response_data q t rs \<and>
   filter (\<lambda>c. similarity c = s) (data_tools (search_response_data q t rs)) =
     filter (\<lambda>c. similarity c = s) rs"
proof (intro conjI impI)
  show "search_response_data q t (data_tools (search_response_data q t rs)) =
     search_response_data q t rs"
    by (simp add: search_response_data_def Let_def sortedResults_idem)
  have "filter (\<lambda>c. - similarity c = - s) (sort_key (\<lambda>c. - similarity c) rs) =
      filter (\<lambda>c. - similarity c = - s) rs"
    by (rule sort_key_stable)
  then show "filter (\<lambda>c. similarity c = s) (data_tools (search_response_data q t rs)) =
     filter (\<lambda>c. similarity c = s) rs"
    by (simp add: data_tools_eq sortedResults_sort_key)
qed simp_all

theorem C9_ranking_witness:
  "data_tools (search_response_data ''sync'' 0.5 (rev (rev sample_candidates))) =
     data_tools (search_response_data ''sync'' 0.5 sample_candidates) \<and>
   search_response_data ''sync'' 0.5
     (data_tools (search_response_data ''sync'' 0.5 sample_candidates)) =
     search_response_data ''sync'' 0.5 sample_candidates"
  using C9_ranking_is_deterministic
          [of "rev (rev sample_candidates)" sample_candidates "''sync''" "0.5"]
  by simp

text \<open>
  C8. The scenario of the specification, each decimal standing for the double nearest to
  it: for the candidates x (server A, 0.9), y (server B, 0.95) and z (server A, 0.8) and
  threshold 0.5, the flat list is y, x, z; the groups are B (max 0.95, avg 0.95) and then
  A (max 0.9, tools x, z); the metadata counts 3 results and 2 servers and carries the
  texts of the branch for a non-empty result. The average of group A is the double
  \<^verbatim>\<open>0.8500000000000001\<close>: the sum of the doubles 0.9 and 0.8 rounds to
  \<^verbatim>\<open>1.7000000000000002\<close>.
\<close>

theorem C8_end_to_end_scenario:
  "search_response_data q 0.5
     [\<lparr>serverName = ''A'', toolName = ''x'', description = d1, inputSchema = i1,
       similarity = round_double 0.9\<rparr>,
      \<lparr>serverName = ''B'', toolName = ''y'', description = d2, inputSchema = i2,
       similarity = round_double 0.95\<rparr>,
      \<lparr>serverName = ''A'', toolName = ''z'', description = d3, inputSchema = i3,
       similarity = round_double 0.8\<rparr>] =
   \<lparr>data_tools =
      [\<lparr>serverName = ''B'', toolName = ''y'', description = d2, inputSchema = i2,
        similarity = round_double 0.95\<rparr>,
       \<lparr>serverName = ''A'', toolName = ''x'', description = d1, inputSchema = i1,
        similarity = round_double 0.9\<rparr>,
       \<lparr>serverName = ''A'', toolName = ''z'', description = d3, inputSchema = i3,
        similarity = round_double 0.8\<rparr>],
    data_servers =
      [\<lparr>group_serverName = ''B'',
        group_tools =
          [\<lparr>name = ''y'', tool_description = d2, tool_inputSchema = i2,
            tool_similarity = round_double 0.95, tool_serverName = ''B''\<rparr>],
        maxSimilarity = Num (round_double 0.95), avgSimilarity = Num (round_double 0.95)\<rparr>,
       \<lparr>group_serverName = ''A'',
        group_tools =
          [\<lparr>name = ''x'', tool_description = d1, tool_inputSchema = i1,
            tool_similarity = round_double 0.9, tool_serverName = ''A''\<rparr>,
           \<lparr>name = ''z'', tool_description = d3, tool_inputSchema = i3,
            tool_similarity = round_double 0.8, tool_serverName = ''A''\<rparr>],
        maxSimilarity = Num (round_double 0.9),
        avgSimilarity = Num (round_double 0.8500000000000001)\<rparr>],
    data_metadata =
      \<lparr>md_query = q, md_threshold = 0.5, totalResults = 3, serverCount = 2,
       guideline = ''Found relevant tools. If these tools don't match exactly what you need, try another search with more specific keywords.'',
       nextSteps = ''Use the found tools in your servers.''\<rparr>\<rparr>"
  unfolding scenario_response [OF scenario_order] avg_scenario_A avg_scenario_B ..

text \<open>The average of group A in the scenario is neither the number 0.85 nor the double
  nearest to it.\<close>

theorem C8_average_counterexample:
  "map avgSimilarity (data_servers (search_response_data [] 0.5 sample_candidates)) =
     [Num (round_double 0.95), Num (round_double 0.8500000000000001)] \<and>
   round_double 0.8500000000000001 \<noteq> round_double 0.85 \<and>
   round_double 0.8500000000000001 \<noteq> 0.85"
proof -
  have "round_double 0.8500000000000001 \<noteq> round_double 0.85"
    unfolding rd_0_8500000000000001 rd_0_85 by simp
  moreover have "round_double 0.8500000000000001 \<noteq> 0.85"
    unfolding rd_0_8500000000000001 by simp
  ultimately show ?thesis
    by (simp add: sample_response)
qed

section \<open>The limit of a search request\<close>









































lemma limitNum_object_throws:
  "''toString'' \<in> fst ` set fs \<Longrightarrow>
   limitNum (default_limit (JObj fs)) = Inl (Error_with ''Cannot convert object to primitive value'')"
  by (simp add: limitNum_def default_limit_def)






lemma searchTools_limit_throws:
  assumes "truthy (body_query body)" and "is_string (body_query body)"
    and "getSmartRoutingConfig env w = (Inr cfg, w')" and "enabled cfg"
    and "limitNum (default_limit (body_limit body)) = Inl err"
  shows "calls (searchTools env body w) = [GetSmartRoutingConfig]"
    and "response (searchTools env body w) =
           failure 500 ''Failed to search tools'' (Some (error_text err))"
  using assms by (simp_all add: searchTools_def Let_def split: prod.split sum.split)











end
